theory Spec2Isabelle
  imports Complex_Main "HOL-Library.Sublist"
begin

section \<open>Counter metrics (src/unnamed/part_000)\<close>

text \<open>
  The module keeps two dictionaries, \<open>tracker\<close> and \<open>summary\<close>.  The key type is the
  enumeration \<open>Counter\<close>, declared in another file; it is a type parameter here.
  Counters are whole numbers in every caller, so \<open>number\<close> is \<open>int\<close>.
\<close>

record counter_entry =
  updated :: bool
  counter :: int

record 'k counters =
  tracker :: "'k \<rightharpoonup> counter_entry"
  summary :: "'k \<rightharpoonup> int"

text \<open>
  \<open>increment(key, counter = 1)\<close>: the optional second argument is \<open>None\<close> when the
  caller leaves it out.  The three statements of the body are three successive updates
  of the dictionary.
\<close>

definition increment :: "'k \<Rightarrow> int option \<Rightarrow> 'k counters \<Rightarrow> 'k counters" where
  "increment key arg c =
     (let n = (case arg of None \<Rightarrow> 1 | Some k \<Rightarrow> k);
          t1 = (if key \<in> dom (tracker c) then tracker c
                else (tracker c)(key \<mapsto> \<lparr>updated = True, counter = n\<rparr>));
          t2 = (case t1 key of None \<Rightarrow> t1 | Some e \<Rightarrow> t1(key \<mapsto> e\<lparr>updated := True\<rparr>));
          t3 = (case t2 key of None \<Rightarrow> t2 | Some e \<Rightarrow> t2(key \<mapsto> e\<lparr>counter := counter e + n\<rparr>))
      in c\<lparr>tracker := t3\<rparr>)"

text \<open>
  \<open>summarize()\<close> visits every key of \<open>tracker\<close>; the visits are independent of each
  other, so the loop is one pointwise update of both dictionaries.
\<close>

definition summarize :: "'k counters \<Rightarrow> ('k \<rightharpoonup> int) \<times> 'k counters" where
  "summarize c =
     (let s = (\<lambda>k. case tracker c k of
                      None \<Rightarrow> summary c k
                    | Some e \<Rightarrow> if updated e then Some (counter e) else summary c k);
          t = (\<lambda>k. case tracker c k of
                      None \<Rightarrow> None
                    | Some e \<Rightarrow> Some (e\<lparr>updated := False\<rparr>))
      in (s, c\<lparr>tracker := t, summary := s\<rparr>))"

section \<open>Shared conventions\<close>

text \<open>
  A JavaScript object used as a dictionary from strings to strings is an association
  list: the pairs in insertion order, looked up with \<open>map_of\<close>.  \<open>key in obj\<close> is
  \<open>has_key\<close>.  Strings are lists of characters; the case conversions act on the ASCII
  letters, which is what the tags and attribute names of a document are made of.
\<close>

type_synonym attrs = "(string \<times> string) list"

definition has_key :: "('k \<times> 'v) list \<Rightarrow> 'k \<Rightarrow> bool" where
  "has_key obj k = (map_of obj k \<noteq> None)"

definition set_key :: "('k \<times> 'v) list \<Rightarrow> 'k \<Rightarrow> 'v \<Rightarrow> ('k \<times> 'v) list" where
  "set_key obj k v =
     (if has_key obj k then map (\<lambda>(k', v'). if k' = k then (k', v) else (k', v')) obj
      else obj @ [(k, v)])"

definition lower_letters :: string where
  "lower_letters = ''abcdefghijklmnopqrstuvwxyz''"

definition upper_letters :: string where
  "upper_letters = ''ABCDEFGHIJKLMNOPQRSTUVWXYZ''"

definition upper_char :: "char \<Rightarrow> char" where
  "upper_char c =
     (case map_of (zip lower_letters upper_letters) c of None \<Rightarrow> c | Some u \<Rightarrow> u)"

definition lower_char :: "char \<Rightarrow> char" where
  "lower_char c =
     (case map_of (zip upper_letters lower_letters) c of None \<Rightarrow> c | Some l \<Rightarrow> l)"

definition toUpperCase :: "string \<Rightarrow> string" where
  "toUpperCase s = map upper_char s"

definition toLowerCase :: "string \<Rightarrow> string" where
  "toLowerCase s = map lower_char s"

text \<open>\<open>Array.prototype.indexOf\<close>: the first position of the element, or \<open>-1\<close>.\<close>

fun indexOf :: "'a list \<Rightarrow> 'a \<Rightarrow> int" where
  "indexOf [] a = -1"
| "indexOf (b # bs) a =
     (if b = a then 0 else (let r = indexOf bs a in if r < 0 then -1 else r + 1))"

text \<open>\<open>String.prototype.indexOf\<close>: the first position where the needle starts, or \<open>-1\<close>.\<close>

fun str_indexOf :: "string \<Rightarrow> string \<Rightarrow> int" where
  "str_indexOf [] needle = (if needle = [] then 0 else -1)"
| "str_indexOf (c # cs) needle =
     (if prefix needle (c # cs) then 0
      else (let r = str_indexOf cs needle in if r < 0 then -1 else r + 1))"

text \<open>\<open>Math.round\<close> rounds a half upwards; \<open>Math.floor\<close> is the floor.\<close>

definition Math_round :: "real \<Rightarrow> int" where
  "Math_round v = \<lfloor>v + 1 / 2\<rfloor>"

definition Math_floor :: "real \<Rightarrow> int" where
  "Math_floor v = \<lfloor>v\<rfloor>"

section \<open>Attribute capture (src/src/plugins/layout/states/element.ts)\<close>

text \<open>
  What the function reads from the browser is its input: the element with its tag name,
  its attributes in order, the rectangle of \<open>getBoundingClientRect\<close> (absent when the
  element has no box), its computed style, its scroll position and its \<open>value\<close> property
  when that is a string; and the window with its page offsets.  Lengths are real numbers.
\<close>

record client_rect =
  r_left :: real
  r_top :: real
  r_width :: real
  r_height :: real

record computed_style =
  c_color :: string
  c_backgroundColor :: string
  c_backgroundImage :: string
  c_overflowX :: string
  c_overflowY :: string
  c_visibility :: string

record element =
  tagName :: string
  e_attributes :: attrs
  e_rect :: "client_rect option"
  e_computed :: computed_style
  scrollLeft :: real
  scrollTop :: real
  e_value :: "string option"

record window =
  pageXOffset :: "int option"
  pageYOffset :: "int option"
  doc_scrollLeft :: int
  doc_scrollTop :: int

record ILayoutRectangle =
  l_x :: int
  l_y :: int
  l_width :: int
  l_height :: int
  scrollX :: "int option"
  scrollY :: "int option"

record IElementLayoutState =
  s_tag :: string
  s_attributes :: "attrs option"
  s_layout :: "ILayoutRectangle option"
  s_style :: "attrs option"
  s_value :: "string option"

text \<open>The members of the enumeration \<open>Styles\<close>.\<close>

definition Color :: string where "Color = ''color''"
definition BackgroundColor :: string where "BackgroundColor = ''backgroundColor''"
definition BackgroundImage :: string where "BackgroundImage = ''backgroundImage''"
definition OverflowX :: string where "OverflowX = ''overflowX''"
definition OverflowY :: string where "OverflowY = ''overflowY''"
definition Visibility :: string where "Visibility = ''visibility''"


text \<open>
  The module variables \<open>defaultColor\<close> and \<open>attributeMaskList\<close>, and what the module
  imports from files that are not part of the sources read here: the members
  \<open>Script\<close>, \<open>Meta\<close> and \<open>Ignore\<close> of the enumeration \<open>Tags\<close>, the function
  \<open>createGenericLayoutState\<close>, the masking function \<open>mask\<close> of the utilities and the
  configured \<open>sensitiveAttributes\<close>.  They are parameters of the model.
\<close>

record capture_state =
  defaultColor :: string
  attributeMaskList :: "string list"

record capture_env =
  Tags_Script :: string
  Tags_Meta :: string
  Tags_Ignore :: string
  createGenericLayoutState :: "element \<Rightarrow> string \<Rightarrow> IElementLayoutState"
  mask_text :: "string \<Rightarrow> string"
  sensitiveAttributes :: "string list"
  win :: window


definition match :: "string \<Rightarrow> string list \<Rightarrow> bool" where
  "match variable vals = (indexOf vals variable > -1)"

definition getAttributeValue ::
  "capture_env \<Rightarrow> capture_state \<Rightarrow> element \<Rightarrow> bool \<Rightarrow> string \<Rightarrow> string" where
  "getAttributeValue E st el unmask attrName =
     (let sensitiveAttribute = (indexOf (attributeMaskList st) attrName > -1);
          maskAttribute = (sensitiveAttribute \<and> \<not> unmask);
          attrValue = (case map_of (e_attributes el) attrName of None \<Rightarrow> [] | Some v \<Rightarrow> v)
      in if maskAttribute then mask_text E attrValue else attrValue)"

definition getElementValue :: "capture_env \<Rightarrow> string \<Rightarrow> bool \<Rightarrow> string" where
  "getElementValue E valueStr unmask = (if unmask then valueStr else mask_text E valueStr)"

definition getLayout :: "capture_env \<Rightarrow> element \<Rightarrow> ILayoutRectangle option" where
  "getLayout E el =
     (case e_rect el of
        None \<Rightarrow> None
      | Some rect \<Rightarrow>
          Some \<lparr>l_x = Math_floor (r_left rect) +
                   (case pageXOffset (win E) of Some v \<Rightarrow> v | None \<Rightarrow> doc_scrollLeft (win E)),
                l_y = Math_floor (r_top rect) +
                   (case pageYOffset (win E) of Some v \<Rightarrow> v | None \<Rightarrow> doc_scrollTop (win E)),
                l_width = Math_round (r_width rect),
                l_height = Math_round (r_height rect),
                scrollX = None, scrollY = None\<rparr>)"

definition getAttributes ::
  "capture_env \<Rightarrow> capture_state \<Rightarrow> element \<Rightarrow> bool \<Rightarrow> attrs" where
  "getAttributes E st el unmask =
     fold (\<lambda>attrName stateAttributes.
             set_key stateAttributes attrName (getAttributeValue E st el unmask attrName))
          (map fst (e_attributes el)) []"

definition getStyles :: "capture_state \<Rightarrow> element \<Rightarrow> attrs option \<times> capture_state" where
  "getStyles st el =
     (let computed = e_computed el;
          st1 = (if length (defaultColor st) = 0 then st\<lparr>defaultColor := c_color computed\<rparr>
                 else st);
          style0 = [];
          style1 = (if match (c_visibility computed) [''hidden'', ''collapse'']
                    then set_key style0 Visibility (c_visibility computed) else style0);
          style2 = (if match (c_overflowX computed) [''auto'', ''scroll'', ''hidden'']
                    then set_key style1 OverflowX (c_overflowX computed) else style1);
          style3 = (if match (c_overflowY computed) [''auto'', ''scroll'', ''hidden'']
                    then set_key style2 OverflowY (c_overflowY computed) else style2);
          style4 = (if c_backgroundImage computed \<noteq> ''none''
                    then set_key style3 BackgroundImage (c_backgroundImage computed)
                    else style3);
          style5 = (if \<not> match (c_backgroundColor computed)
                            [''rgba(0, 0, 0, 0)'', ''transparent'']
                    then set_key style4 BackgroundColor (c_backgroundColor computed)
                    else style4);
          style6 = (if c_color computed \<noteq> defaultColor st1
                    then set_key style5 Color (c_color computed) else style5)
      in (if length style6 > 0 then Some style6 else None, st1))"

text \<open>
  \<open>createElementLayoutState(element, info)\<close>; of \<open>info\<close> the function reads the flag
  \<open>unmask\<close> only.  The test before the scroll offsets names \<open>Styles.OverflowX\<close> in both
  operands of its disjunction, and so does the model.
\<close>

definition createElementLayoutState ::
  "capture_env \<Rightarrow> capture_state \<Rightarrow> element \<Rightarrow> bool \<Rightarrow> IElementLayoutState \<times> capture_state"
  where
  "createElementLayoutState E st el unmask =
     (let tagName' = tagName el;
          elementState = createGenericLayoutState E el tagName'
      in if tagName' = Tags_Script E \<or> tagName' = Tags_Meta E
         then (elementState\<lparr>s_tag := Tags_Ignore E\<rparr>, st)
         else
           (let es1 = elementState\<lparr>s_attributes := Some (getAttributes E st el unmask)\<rparr>;
                es2 = es1\<lparr>s_layout := getLayout E el\<rparr>;
                (sty, st1) = (case s_layout es2 of
                                None \<Rightarrow> (None, st)
                              | Some l \<Rightarrow> getStyles st el);
                es3 = es2\<lparr>s_style := sty\<rparr>;
                es4 = (case (s_layout es3, s_style es3) of
                         (Some l, Some style) \<Rightarrow>
                           if has_key style OverflowX \<or> has_key style OverflowX
                           then es3\<lparr>s_layout :=
                                  Some (l\<lparr>scrollX := Some (Math_round (scrollLeft el)),
                                          scrollY := Some (Math_round (scrollTop el))\<rparr>)\<rparr>
                           else es3
                       | _ \<Rightarrow> es3);
                es5 = (case e_value el of
                         None \<Rightarrow> es4
                       | Some valueStr \<Rightarrow>
                           es4\<lparr>s_value := Some (getElementValue E valueStr unmask)\<rparr>)
            in (es5, st1)))"

section \<open>Node registry (src/src/layout/dom.ts): data\<close>

text \<open>
  A live node is known by its identity only, a natural number.  The registry's ids are
  natural numbers too; \<open>null\<close> is \<open>None\<close>.
\<close>

type_synonym node = nat

text \<open>
  The exceptions of JavaScript and of the DOM that the modelled code can meet.
  \<open>Unmodelled\<close> is not one of them: it marks the few inputs on which a definition below
  does not follow the code, each named where it occurs.
\<close>

datatype exn = TypeError | InvalidCharacterError | HierarchyRequestError | NotFoundError | Unmodelled

text \<open>
  Modelled from the spec: the enumeration \<open>Source\<close> of the type declarations, which are
  not among the sources.  The registry distinguishes the structural child-list-add source
  from every other one.
\<close>

datatype Source = Discover | ChildListAdd | ChildListRemove | Attributes | CharacterData

text \<open>
  Modelled from the spec: the capture snapshot \<open>NodeInfo\<close> of the type declarations: a
  tag, and optionally a path, an attribute map, a layout rectangle, a style-delta map and
  a value.  An optional field that is absent is \<open>None\<close>.
\<close>

record NodeInfo =
  tag :: string
  path :: "string option"
  attributes :: "attrs option"
  layout :: "ILayoutRectangle option"
  style :: "attrs option"
  val :: "string option"

record Metadata =
  active :: bool
  boxmodel :: bool
  masked :: bool

record NodeValue =
  v_id :: nat
  v_parent :: "nat option"
  v_next :: "nat option"
  v_children :: "nat list"
  v_position :: "nat option"
  v_data :: NodeInfo
  v_selector :: string
  v_region :: "string option"
  v_metadata :: Metadata

record NodeChange =
  ch_time :: nat
  ch_source :: Source
  ch_value :: "NodeValue option"

text \<open>
  The module variables.  \<open>nodes\<close>, \<open>values\<close> and \<open>changes\<close> are sparse arrays indexed
  by id, so they are maps; \<open>updateMap\<close> and \<open>selectorMap\<close> are arrays that are only
  pushed to and spliced, so they are lists.  \<open>scheduled\<close> collects the roots that
  \<open>discoverTree\<close> hands to the task scheduler.
\<close>

record registry =
  index :: nat
  nodes :: "nat \<rightharpoonup> node"
  "values" :: "nat \<rightharpoonup> NodeValue"
  changes :: "nat \<rightharpoonup> NodeChange list"
  updateMap :: "nat list"
  selectorMap :: "nat list"
  idMap :: "node \<rightharpoonup> nat"
  regionMap :: "node \<rightharpoonup> string"
  regionTracker :: "string \<rightharpoonup> nat"
  urlMap :: "string \<rightharpoonup> nat"
  scheduled :: "node list"

text \<open>
  The members of \<open>Constant\<close> that the module reads; the enumeration is declared with the
  types, outside the sources, so its strings are parameters.
\<close>

record Constant =
  TAG_INPUT :: string
  NAME_ATTRIBUTE :: string
  TYPE_ATTRIBUTE :: string
  MASK_ATTRIBUTE :: string
  UNMASK_ATTRIBUTE :: string
  ID_ATTRIBUTE :: string
  CLASS_ATTRIBUTE :: string
  HREF_ATTRIBUTE :: string
  SRC_ATTRIBUTE :: string
  SRCSET_ATTRIBUTE :: string
  DATA_PREFIX :: string
  CLARITY_REGION_ATTRIBUTE :: string

text \<open>
  What the module takes from its surroundings: the constants, the imported function
  \<open>selector\<close>, the absolute URL that the browser makes of a relative one, the
  configuration flag \<open>lean\<close>, whether the devtools hook is present in the window, the
  clock, and of the live document the chain of following siblings of a node and the
  shadow root of an element.
\<close>

record dom_env =
  K :: Constant
  selector_fn :: "string \<Rightarrow> string option \<Rightarrow> attrs option \<Rightarrow> nat option \<Rightarrow> string"
  fullUrl :: "string \<Rightarrow> string"
  lean :: bool
  devtools_hook :: bool
  time :: nat
  nextSiblings :: "node \<Rightarrow> node list"
  shadowRoot :: "node \<Rightarrow> node option"

definition BLACKLIST_TYPES :: "string list" where
  "BLACKLIST_TYPES = [''password'', ''hidden'', ''email'']"

definition BLACKLIST_NAMES :: "string list" where
  "BLACKLIST_NAMES = [''address'', ''cell'', ''code'', ''dob'', ''email'', ''mobile'', ''name'',
     ''phone'', ''secret'', ''social'', ''ssn'', ''tel'', ''zip'']"

definition reset :: registry where
  "reset = \<lparr>index = 1, nodes = Map.empty, values = Map.empty, changes = Map.empty,
     updateMap = [], selectorMap = [], idMap = Map.empty, regionMap = Map.empty,
     regionTracker = Map.empty, urlMap = Map.empty, scheduled = []\<rparr>"

text \<open>A mutation of the object \<open>values[id]\<close>.\<close>

definition modify :: "nat \<Rightarrow> (NodeValue \<Rightarrow> NodeValue) \<Rightarrow> registry \<Rightarrow> registry" where
  "modify i f s = s\<lparr>values := (values s)(i := map_option f (values s i))\<rparr>"

section \<open>Node registry: operations\<close>

definition discoverTree :: "node \<Rightarrow> registry \<Rightarrow> registry" where
  "discoverTree r s = s\<lparr>scheduled := scheduled s @ [r]\<rparr>"

text \<open>
  \<open>getId(node, autogen)\<close> for a node that is not \<open>null\<close>.  An id of \<open>0\<close> is falsy,
  as a missing one is.
\<close>

definition getId :: "registry \<Rightarrow> node \<Rightarrow> bool \<Rightarrow> nat option \<times> registry" where
  "getId s n autogen =
     (let falsy = (case idMap s n of None \<Rightarrow> True | Some i \<Rightarrow> i = 0) in
      if falsy \<and> autogen
      then (let i = index s; s' = s\<lparr>index := i + 1, idMap := (idMap s)(n \<mapsto> i)\<rparr>
            in (if i = 0 then None else Some i, s'))
      else (case idMap s n of None \<Rightarrow> None | Some i \<Rightarrow> if i = 0 then None else Some i, s))"

text \<open>The id of an optional node, without generation: \<open>parent ? getId(parent) : null\<close>.\<close>

definition getParentId :: "registry \<Rightarrow> node option \<Rightarrow> nat option" where
  "getParentId s parent = (case parent of None \<Rightarrow> None | Some p \<Rightarrow> fst (getId s p False))"

definition has :: "registry \<Rightarrow> node \<Rightarrow> bool" where
  "has s n = (case fst (getId s n False) of None \<Rightarrow> False | Some i \<Rightarrow> nodes s i \<noteq> None)"

text \<open>
  \<open>getNextId\<close> walks along \<open>nextSibling\<close> until a sibling has an id; the walk is a
  recursion over the chain of following siblings.
\<close>

fun getNextId_walk :: "registry \<Rightarrow> node list \<Rightarrow> nat option" where
  "getNextId_walk s [] = None"
| "getNextId_walk s (n # ns) =
     (case fst (getId s n False) of None \<Rightarrow> getNextId_walk s ns | Some i \<Rightarrow> Some i)"

definition getNextId :: "dom_env \<Rightarrow> registry \<Rightarrow> node \<Rightarrow> nat option" where
  "getNextId E s n = getNextId_walk s (nextSiblings E n)"

text \<open>
  \<open>mask(data, masked)\<close>, named \<open>mask_dom\<close> here.  The loop over the denylisted names sets the flag for every
  name found in the value; it is a fold over the list.
\<close>

definition mask_dom :: "Constant \<Rightarrow> NodeInfo \<Rightarrow> bool \<Rightarrow> bool" where
  "mask_dom C data' masked0 =
     (case attributes data' of
        None \<Rightarrow> masked0
      | Some a \<Rightarrow>
          (let tag' = toUpperCase (tag data');
               m1 = (if masked0 = False \<and> tag' = TAG_INPUT C \<and> has_key a (NAME_ATTRIBUTE C)
                     then (let v = toLowerCase (case map_of a (NAME_ATTRIBUTE C) of
                                                  None \<Rightarrow> [] | Some w \<Rightarrow> w)
                           in fold (\<lambda>name m. if str_indexOf v name \<ge> 0 then True else m)
                                BLACKLIST_NAMES masked0)
                     else masked0);
               m2 = (if has_key a (TYPE_ATTRIBUTE C) \<and>
                        indexOf BLACKLIST_TYPES
                          (case map_of a (TYPE_ATTRIBUTE C) of None \<Rightarrow> [] | Some w \<Rightarrow> w) \<ge> 0
                     then True else m1);
               m3 = (if has_key a (MASK_ATTRIBUTE C) then True else m2);
               m4 = (if has_key a (UNMASK_ATTRIBUTE C) then False else m3)
           in m4))"

text \<open>
  \<open>diff(a, b, field)\<close>, one definition for each kind of field.  Two objects are compared
  key by key, first over the keys of the one, then over the keys of the other; anything
  else is compared with \<open>!==\<close>.  A layout rectangle has a fixed set of keys, so that its
  comparison key by key is the comparison of the rectangles.
\<close>

definition diff_obj :: "attrs option \<Rightarrow> attrs option \<Rightarrow> bool" where
  "diff_obj a b =
     (case (a, b) of
        (Some x, Some y) \<Rightarrow>
          list_ex (\<lambda>k. map_of x k \<noteq> map_of y k) (map fst x) \<or>
          list_ex (\<lambda>k. map_of y k \<noteq> map_of x k) (map fst y)
      | _ \<Rightarrow> a \<noteq> b)"

definition diff_val :: "'a \<Rightarrow> 'a \<Rightarrow> bool" where
  "diff_val a b = (a \<noteq> b)"

text \<open>
  The loop \<open>for (let key in data)\<close> of \<open>update\<close>: every field that the new snapshot
  carries and that differs from the stored one is copied over it.  The result is the
  stored snapshot after the loop and whether any field differed.
\<close>

definition merge_data :: "NodeInfo \<Rightarrow> NodeInfo \<Rightarrow> NodeInfo \<times> bool" where
  "merge_data a b =
     (let c1 = diff_val (tag a) (tag b);
          a1 = (if c1 then a\<lparr>tag := tag b\<rparr> else a);
          c2 = (path b \<noteq> None \<and> diff_val (path a1) (path b));
          a2 = (if c2 then a1\<lparr>path := path b\<rparr> else a1);
          c3 = (attributes b \<noteq> None \<and> diff_obj (attributes a2) (attributes b));
          a3 = (if c3 then a2\<lparr>attributes := attributes b\<rparr> else a2);
          c4 = (layout b \<noteq> None \<and> diff_val (layout a3) (layout b));
          a4 = (if c4 then a3\<lparr>layout := layout b\<rparr> else a3);
          c5 = (style b \<noteq> None \<and> diff_obj (style a4) (style b));
          a5 = (if c5 then a4\<lparr>style := style b\<rparr> else a4);
          c6 = (val b \<noteq> None \<and> diff_val (val a5) (val b));
          a6 = (if c6 then a5\<lparr>val := val b\<rparr> else a5)
      in (a6, c1 \<or> c2 \<or> c3 \<or> c4 \<or> c5 \<or> c6))"

text \<open>
  \<open>track(id, source, changed = true)\<close>.  \<open>splice(uIndex, 1)\<close> takes the element at
  \<open>uIndex\<close> out.  With the devtools hook present, a copy of \<open>values[id]\<close> is appended to
  the history of the id; the copy goes through JSON, which turns a missing value into
  \<open>null\<close>.
\<close>

definition track :: "dom_env \<Rightarrow> nat \<Rightarrow> Source \<Rightarrow> bool \<Rightarrow> registry \<Rightarrow> registry" where
  "track E i source changed s =
     (let uIndex = indexOf (updateMap s) i;
          s1 = (if uIndex \<ge> 0 \<and> source = ChildListAdd
                then s\<lparr>updateMap :=
                        take (nat uIndex) (updateMap s) @ drop (Suc (nat uIndex)) (updateMap s) @ [i]\<rparr>
                else if uIndex = -1 \<and> changed then s\<lparr>updateMap := updateMap s @ [i]\<rparr>
                else s)
      in if devtools_hook E
         then (let change = \<lparr>ch_time = time E, ch_source = source, ch_value = values s1 i\<rparr>;
                   old = (case changes s1 i of None \<Rightarrow> [] | Some l \<Rightarrow> l)
               in s1\<lparr>changes := (changes s1)(i \<mapsto> old @ [change])\<rparr>)
         else s1)"

definition history :: "registry \<Rightarrow> nat \<Rightarrow> NodeChange list" where
  "history s i = (case changes s i of Some l \<Rightarrow> l | None \<Rightarrow> [])"

text \<open>
  \<open>remove(id, source)\<close> calls itself for every child before it empties the child list,
  without a visited set, so that on a registry whose child lists form a cycle the
  recursion does not end.  The first argument bounds the depth of the recursion; the
  result is \<open>None\<close> when the bound is reached.  \<open>remove_each\<close> is the loop over
  \<open>value.children\<close>.  Reading a field of a missing \<open>values[id]\<close> is a \<open>TypeError\<close>.
\<close>

fun remove :: "nat \<Rightarrow> dom_env \<Rightarrow> nat \<Rightarrow> Source \<Rightarrow> registry \<Rightarrow> (exn + registry) option"
  and remove_each ::
    "nat \<Rightarrow> dom_env \<Rightarrow> nat list \<Rightarrow> Source \<Rightarrow> registry \<Rightarrow> (exn + registry) option"
  where
  "remove 0 E i source s = None"
| "remove (Suc n) E i source s =
     (case values s i of
        None \<Rightarrow> Some (Inl TypeError)
      | Some v \<Rightarrow>
          (let s1 = modify i (\<lambda>v. v\<lparr>v_metadata := (v_metadata v)\<lparr>active := False\<rparr>\<rparr>) s;
               s2 = modify i (\<lambda>v. v\<lparr>v_parent := None\<rparr>) s1;
               s3 = track E i source True s2
           in case remove_each n E (v_children v) source s3 of
                None \<Rightarrow> None
              | Some (Inl e) \<Rightarrow> Some (Inl e)
              | Some (Inr s4) \<Rightarrow> Some (Inr (modify i (\<lambda>v. v\<lparr>v_children := []\<rparr>) s4))))"
| "remove_each n E [] source s = Some (Inr s)"
| "remove_each n E (c # cs) source s =
     (case remove n E c source s of
        None \<Rightarrow> None
      | Some (Inl e) \<Rightarrow> Some (Inl e)
      | Some (Inr s') \<Rightarrow> remove_each n E cs source s')"

text \<open>
  \<open>position(parent, child)\<close>.  The \<open>while\<close> loop breaks in its first round, so it
  looks at the one sibling just before the child, if there is one.  \<open>null + 1\<close> is
  \<open>1\<close>.  The result is the position that the function returns, and the registry with
  \<open>child.position\<close> updated.
\<close>

definition position ::
  "dom_env \<Rightarrow> NodeValue option \<Rightarrow> nat \<Rightarrow> registry \<Rightarrow> exn + (nat option \<times> registry)" where
  "position E parent c s =
     (case values s c of
        None \<Rightarrow> Inl TypeError
      | Some child \<Rightarrow>
          (let tag' = tag (v_data child);
               hasClassName = (case attributes (v_data child) of
                                 None \<Rightarrow> False
                               | Some a \<Rightarrow> \<not> has_key a (CLASS_ATTRIBUTE (K E)))
           in case parent of
                None \<Rightarrow> Inr (v_position child, s)
              | Some pv \<Rightarrow>
                  if (tag' = ''DIV'' \<or> tag' = ''TR'' \<or> tag' = ''P'' \<or> tag' = ''LI'' \<or>
                      tag' = ''UL'') \<or> hasClassName
                  then (let s1 = modify c (\<lambda>v. v\<lparr>v_position := Some 1\<rparr>) s;
                            idx = indexOf (v_children pv) (v_id child)
                        in if idx > 0
                           then (case values s1 (v_children pv ! nat (idx - 1)) of
                                   None \<Rightarrow> Inl TypeError
                                 | Some sibling \<Rightarrow>
                                     if tag (v_data child) = tag (v_data sibling)
                                     then (let q = (case v_position sibling of
                                                      None \<Rightarrow> 1 | Some k \<Rightarrow> k + 1)
                                           in Inr (Some q,
                                                   modify c (\<lambda>v. v\<lparr>v_position := Some q\<rparr>) s1))
                                     else Inr (Some 1, s1))
                           else Inr (Some 1, s1))
                  else Inr (v_position child, s)))"

text \<open>\<open>updateSelector(value)\<close>, for the object \<open>values[id]\<close>.\<close>

definition updateSelector :: "dom_env \<Rightarrow> nat \<Rightarrow> registry \<Rightarrow> exn + registry" where
  "updateSelector E i s =
     (case values s i of
        None \<Rightarrow> Inl TypeError
      | Some v \<Rightarrow>
          (let parent = (case v_parent v of
                           None \<Rightarrow> None
                         | Some p \<Rightarrow> if p \<noteq> 0 then values s p else None);
               prefix' = (case parent of None \<Rightarrow> None | Some pv \<Rightarrow> Some (v_selector pv @ ''>''));
               ex = v_selector v
           in case position E parent i s of
                Inl e \<Rightarrow> Inl e
              | Inr (pos, s1) \<Rightarrow>
                  (let current = selector_fn E (tag (v_data v)) prefix' (attributes (v_data v)) pos;
                       s2 = (if current \<noteq> ex \<and> indexOf (selectorMap s1) (v_id v) = -1
                             then s1\<lparr>selectorMap := selectorMap s1 @ [v_id v]\<rparr> else s1)
                   in Inr (modify i (\<lambda>v. v\<lparr>v_selector := current\<rparr>) s2))))"

text \<open>\<open>String.prototype.split\<close> at a separator of one character, and \<open>trim\<close>.\<close>

fun split_on :: "char \<Rightarrow> string \<Rightarrow> string list" where
  "split_on d [] = [[]]"
| "split_on d (c # cs) =
     (if c = d then [] # split_on d cs
      else (case split_on d cs of [] \<Rightarrow> [[c]] | w # ws \<Rightarrow> (c # w) # ws))"

definition is_space :: "char \<Rightarrow> bool" where
  "is_space c = (c \<in> set [CHR '' '', CHR 0x09, CHR 0x0A, CHR 0x0B, CHR 0x0C, CHR 0x0D])"

definition trim :: "string \<Rightarrow> string" where
  "trim t = rev (dropWhile is_space (rev (dropWhile is_space t)))"

text \<open>
  \<open>metadata(tag, id, parentId)\<close>: the URLs of media and link elements, and box-model
  monitoring for frames and for nodes that define a region.
\<close>

definition track_url :: "dom_env \<Rightarrow> string \<Rightarrow> nat \<Rightarrow> registry \<Rightarrow> registry" where
  "track_url E u i s = s\<lparr>urlMap := (urlMap s)(fullUrl E u \<mapsto> i)\<rparr>"

definition metadata ::
  "dom_env \<Rightarrow> string \<Rightarrow> nat \<Rightarrow> nat option \<Rightarrow> registry \<Rightarrow> exn + registry" where
  "metadata E tag' i parentId s =
     (if parentId = None then Inr s
      else case values s i of
        None \<Rightarrow> Inl TypeError
      | Some v \<Rightarrow>
          (let a = (case attributes (v_data v) of None \<Rightarrow> [] | Some a \<Rightarrow> a);
               get = (\<lambda>k. case map_of a k of None \<Rightarrow> [] | Some w \<Rightarrow> w);
               s1 = (if tag' = ''VIDEO'' \<or> tag' = ''AUDIO'' \<or> tag' = ''LINK''
                     then (let href = get (HREF_ATTRIBUTE (K E));
                               src = get (SRC_ATTRIBUTE (K E));
                               srcset = get (SRCSET_ATTRIBUTE (K E));
                               t1 = (if has_key a (HREF_ATTRIBUTE (K E)) \<and> length href > 0
                                     then track_url E href i s else s);
                               t2 = (if has_key a (SRC_ATTRIBUTE (K E)) \<and> length src > 0 \<and>
                                        str_indexOf src (DATA_PREFIX (K E)) \<noteq> 0
                                     then track_url E src i t1 else t1);
                               t3 = (if has_key a (SRCSET_ATTRIBUTE (K E)) \<and> length srcset > 0
                                     then fold (\<lambda>u t. (let parts = split_on CHR '' '' (trim u)
                                                        in if length parts = 2 \<and> length (hd parts) > 0
                                                           then track_url E (hd parts) i t else t))
                                            (split_on CHR '','' srcset) t2
                                     else t2)
                           in t3)
                     else if tag' = ''IFRAME''
                     then (if lean E = False
                           then modify i (\<lambda>v. v\<lparr>v_metadata := (v_metadata v)\<lparr>boxmodel := True\<rparr>\<rparr>) s
                           else s)
                     else s);
               s2 = (if (case nodes s1 i of None \<Rightarrow> False | Some n \<Rightarrow> regionMap s1 n \<noteq> None)
                     then modify i (\<lambda>v. v\<lparr>v_metadata := (v_metadata v)\<lparr>boxmodel := True\<rparr>\<rparr>) s1
                     else s1)
           in Inr s2))"

text \<open>
  \<open>add(node, parent, data, source)\<close>, in two parts.  \<open>add_value\<close> is the body from
  the resolution of the parent up to and including the assignment to \<open>values[id]\<close>, for
  the id \<open>i\<close> that \<open>getId(node, true)\<close> returned; \<open>add\<close> is the whole function.
  \<open>parentId >= 0 && values[parentId]\<close> holds exactly when the parent's id is registered
  in \<open>values\<close>: for \<open>null\<close> the comparison holds, and \<open>values[null]\<close> is undefined.
\<close>

definition add_value ::
  "dom_env \<Rightarrow> node \<Rightarrow> nat \<Rightarrow> node option \<Rightarrow> NodeInfo \<Rightarrow> registry \<Rightarrow> registry" where
  "add_value E n i parent data' s1 =
     (let parentId = getParentId s1 parent;
          nextId = getNextId E s1 n;
          masked0 = True;
          region0 = regionMap s1 n;
          parentValue = (case parentId of None \<Rightarrow> None | Some p \<Rightarrow> values s1 p);
          s2 = (case (parentId, parentValue) of
                  (Some p, Some pv) \<Rightarrow> modify p (\<lambda>v. v\<lparr>v_children := v_children v @ [i]\<rparr>) s1
                | _ \<Rightarrow> s1);
          region = (case parentValue of
                      None \<Rightarrow> region0
                    | Some pv \<Rightarrow> if region0 = None then v_region pv else region0);
          masked1 = (case parentValue of
                       None \<Rightarrow> masked0
                     | Some pv \<Rightarrow> masked (v_metadata pv));
          s3 = (case shadowRoot E n of
                  None \<Rightarrow> s2
                | Some r \<Rightarrow> if \<not> has s2 r then discoverTree r s2 else s2);
          masked2 = mask_dom (K E) data' masked1;
          s4 = (case attributes data' of
                  None \<Rightarrow> s3
                | Some a \<Rightarrow>
                    (case map_of a (CLARITY_REGION_ATTRIBUTE (K E)) of
                       None \<Rightarrow> s3
                     | Some r \<Rightarrow> s3\<lparr>regionMap := (regionMap s3)(n \<mapsto> r)\<rparr>))
      in s4\<lparr>nodes := (nodes s4)(i \<mapsto> n),
             values := (values s4)(i \<mapsto>
               \<lparr>v_id = i, v_parent = parentId, v_next = nextId, v_children = [],
                v_position = None, v_data = data', v_selector = [], v_region = region,
                v_metadata = \<lparr>active = True, boxmodel = False, masked = masked2\<rparr>\<rparr>)\<rparr>)"

text \<open>
  The id counter starts at \<open>1\<close> and is only ever incremented, so \<open>getId(node, true)\<close>
  returns a positive id; the model does not follow the code on a registry whose counter
  is \<open>0\<close> and answers \<open>Unmodelled\<close> there.
\<close>

definition add ::
  "dom_env \<Rightarrow> node \<Rightarrow> node option \<Rightarrow> NodeInfo \<Rightarrow> Source \<Rightarrow> registry \<Rightarrow> exn + registry" where
  "add E n parent data' source s =
     (case getId s n True of
        (None, s1) \<Rightarrow> Inl Unmodelled
      | (Some i, s1) \<Rightarrow>
          (case updateSelector E i (add_value E n i parent data' s1) of
             Inl e \<Rightarrow> Inl e
           | Inr s6 \<Rightarrow>
               (case metadata E (tag data') i (getParentId s1 parent) s6 of
                  Inl e \<Rightarrow> Inl e
                | Inr s7 \<Rightarrow> Inr (track E i source True s7))))"

text \<open>
  The block of \<open>update\<close> that handles a parent that has changed (the body of the
  second \<open>if\<close>).  \<open>splice(nextId + 1, 0, id)\<close> inserts at the index \<open>nextId + 1\<close>, or
  at the end when the array is shorter; \<open>splice(nodeIndex, 1)\<close> takes one element out.
  The first argument bounds the recursion of \<open>remove\<close>.
\<close>

definition update_parent ::
  "nat \<Rightarrow> dom_env \<Rightarrow> node \<Rightarrow> nat \<Rightarrow> nat option \<Rightarrow> nat option \<Rightarrow> Source \<Rightarrow> registry
     \<Rightarrow> (exn + registry) option" where
  "update_parent fuel E n i parentId nextId source s =
     (case values s i of
        None \<Rightarrow> Some (Inl TypeError)
      | Some v \<Rightarrow>
          (let oldParentId = v_parent v;
               s1 = modify i (\<lambda>v. v\<lparr>v_parent := parentId\<rparr>) s;
               moved =
                 (case parentId of
                    Some p \<Rightarrow>
                      (case values s1 p of
                         None \<Rightarrow> Some (Inl TypeError)
                       | Some pv \<Rightarrow>
                           (let s2 = (case nextId of
                                        Some nx \<Rightarrow>
                                          modify p (\<lambda>v. v\<lparr>v_children :=
                                            take (nx + 1) (v_children v) @ [i] @
                                            drop (nx + 1) (v_children v)\<rparr>) s1
                                      | None \<Rightarrow>
                                          modify p (\<lambda>v. v\<lparr>v_children := v_children v @ [i]\<rparr>) s1);
                                region = (case regionMap s2 n of
                                            Some r \<Rightarrow> Some r
                                          | None \<Rightarrow> (case values s2 p of
                                                       None \<Rightarrow> None
                                                     | Some pv' \<Rightarrow> v_region pv'))
                            in Some (Inr (modify i (\<lambda>v. v\<lparr>v_region := region\<rparr>) s2))))
                  | None \<Rightarrow> remove fuel E i source s1)
           in case moved of
                None \<Rightarrow> None
              | Some (Inl e) \<Rightarrow> Some (Inl e)
              | Some (Inr s3) \<Rightarrow>
                  (case oldParentId of
                     None \<Rightarrow> Some (Inr s3)
                   | Some op \<Rightarrow>
                       (case values s3 op of
                          None \<Rightarrow> Some (Inl TypeError)
                        | Some ov \<Rightarrow>
                            (let nodeIndex = indexOf (v_children ov) i
                             in if nodeIndex \<ge> 0
                                then Some (Inr (modify op (\<lambda>v. v\<lparr>v_children :=
                                       take (nat nodeIndex) (v_children v) @
                                       drop (Suc (nat nodeIndex)) (v_children v)\<rparr>) s3))
                                else Some (Inr s3))))))"

text \<open>
  \<open>update(node, parent, data, source)\<close>.  \<open>id in values\<close> fails for \<open>null\<close> and for
  an id without a value, and then nothing happens.
\<close>

definition update ::
  "nat \<Rightarrow> dom_env \<Rightarrow> node \<Rightarrow> node option \<Rightarrow> NodeInfo \<Rightarrow> Source \<Rightarrow> registry
     \<Rightarrow> (exn + registry) option" where
  "update fuel E n parent data' source s =
     (let idopt = fst (getId s n False);
          parentId = getParentId s parent;
          nextId = getNextId E s n
      in case idopt of
           None \<Rightarrow> Some (Inr s)
         | Some i \<Rightarrow>
             (case values s i of
                None \<Rightarrow> Some (Inr s)
              | Some v0 \<Rightarrow>
                  (let s1 = modify i (\<lambda>v. v\<lparr>v_metadata := (v_metadata v)\<lparr>active := True\<rparr>\<rparr>) s;
                       c1 = (v_next v0 \<noteq> nextId);
                       s2 = (if c1 then modify i (\<lambda>v. v\<lparr>v_next := nextId\<rparr>) s1 else s1);
                       c2 = (v_parent v0 \<noteq> parentId)
                   in case (if c2 then update_parent fuel E n i parentId nextId source s2
                            else Some (Inr s2)) of
                        None \<Rightarrow> None
                      | Some (Inl e) \<Rightarrow> Some (Inl e)
                      | Some (Inr s3) \<Rightarrow>
                          (let s4 = (case shadowRoot E n of
                                       None \<Rightarrow> s3
                                     | Some r \<Rightarrow> if \<not> has s3 r then discoverTree r s3 else s3);
                               merged = (case values s4 i of
                                           None \<Rightarrow> (data', False)
                                         | Some v \<Rightarrow> merge_data (v_data v) data');
                               c3 = snd merged;
                               s5 = modify i (\<lambda>v. v\<lparr>v_data := fst merged\<rparr>) s4
                           in case updateSelector E i s5 of
                                Inl e \<Rightarrow> Some (Inl e)
                              | Inr s6 \<Rightarrow>
                                  (case metadata E (tag data') i parentId s6 of
                                     Inl e \<Rightarrow> Some (Inl e)
                                   | Inr s7 \<Rightarrow>
                                       Some (Inr (track E i source (c1 \<or> c2 \<or> c3) s7)))))))"

text \<open>
  \<open>updates()\<close>.  \<open>p in updateMap\<close> asks whether \<open>p\<close> is an index of the array
  \<open>updateMap\<close>, that is whether \<open>p\<close> is less than its length.  \<open>output\<close> holds the
  objects themselves, so what the caller gets is their state at the end of the loop; the
  loop collects the ids and the values are read at the end.  Taking the selector of a
  parent that has no value is a \<open>TypeError\<close>, and then the queue is not cleared.
\<close>

fun updates_loop ::
  "Constant \<Rightarrow> nat list \<Rightarrow> nat list \<Rightarrow> registry \<Rightarrow> exn + (nat list \<times> registry)" where
  "updates_loop C [] output s = Inr (output, s)"
| "updates_loop C (i # ids) output s =
     (case values s i of
        None \<Rightarrow> updates_loop C ids output s
      | Some v \<Rightarrow>
          (let p = v_parent v;
               hasId = (case attributes (v_data v) of
                          None \<Rightarrow> False
                        | Some a \<Rightarrow> has_key a (ID_ATTRIBUTE C))
           in case p of
                None \<Rightarrow>
                  updates_loop C ids (output @ [i])
                    (modify i (\<lambda>v. v\<lparr>v_data := (v_data v)\<lparr>path := None\<rparr>\<rparr>) s)
              | Some q \<Rightarrow>
                  if q < length (updateMap s) \<or> hasId \<or> length (v_selector v) = 0
                  then updates_loop C ids (output @ [i])
                         (modify i (\<lambda>v. v\<lparr>v_data := (v_data v)\<lparr>path := None\<rparr>\<rparr>) s)
                  else (case values s q of
                          None \<Rightarrow> Inl TypeError
                        | Some pv \<Rightarrow>
                            updates_loop C ids (output @ [i])
                              (modify i (\<lambda>v. v\<lparr>v_data :=
                                 (v_data v)\<lparr>path := Some (v_selector pv)\<rparr>\<rparr>) s))))"

definition updates :: "Constant \<Rightarrow> registry \<Rightarrow> exn + (NodeValue list \<times> registry)" where
  "updates C s =
     (case updates_loop C (updateMap s) [] s of
        Inl e \<Rightarrow> Inl e
      | Inr (output, s') \<Rightarrow> Inr (List.map_filter (values s') output, s'\<lparr>updateMap := []\<rparr>))"

section \<open>The target document of the reconstructor\<close>

text \<open>
  The reconstructor works on a document of the browser.  The document is a store of
  nodes: each node has a kind, a name, its attributes in order, its character data, its
  parent and its children in order; a node is known by its reference.  The store and the
  id table of the reconstructor are association lists.  The operations are those of the
  DOM standard that the reconstructor calls, with the exceptions that the standard gives
  them.  Names are kept as they are written: the case folding that an HTML document
  applies to element and attribute names is not modelled, and neither is the namespace of
  a name.
\<close>

type_synonym ref = nat

datatype node_kind = DocumentNode | ElementNode | TextNode | DoctypeNode

record dnode =
  n_kind :: node_kind
  n_name :: string
  n_attrs :: attrs
  n_data :: string
  n_parent :: "ref option"
  n_children :: "ref list"

type_synonym store = "(ref \<times> dnode) list"

definition new_node :: "node_kind \<Rightarrow> string \<Rightarrow> dnode" where
  "new_node k nm = \<lparr>n_kind = k, n_name = nm, n_attrs = [], n_data = [], n_parent = None,
     n_children = []\<rparr>"

definition kind_of :: "store \<Rightarrow> ref \<Rightarrow> node_kind option" where
  "kind_of h r = map_option n_kind (map_of h r)"

definition parentNode :: "store \<Rightarrow> ref \<Rightarrow> ref option" where
  "parentNode h r = (case map_of h r of None \<Rightarrow> None | Some x \<Rightarrow> n_parent x)"

definition parentElement :: "store \<Rightarrow> ref \<Rightarrow> ref option" where
  "parentElement h r =
     (case parentNode h r of
        None \<Rightarrow> None
      | Some p \<Rightarrow> if kind_of h p = Some ElementNode then Some p else None)"

text \<open>
  Whether \<open>a\<close> is an inclusive ancestor of \<open>b\<close>: the walk up the parents of \<open>b\<close>,
  at most as many steps as the store has nodes.
\<close>

fun ancestor_within :: "nat \<Rightarrow> store \<Rightarrow> ref \<Rightarrow> ref \<Rightarrow> bool" where
  "ancestor_within 0 h a b = (a = b)"
| "ancestor_within (Suc k) h a b =
     (a = b \<or> (case parentNode h b of None \<Rightarrow> False | Some p \<Rightarrow> ancestor_within k h a p))"

definition inclusive_ancestor :: "store \<Rightarrow> ref \<Rightarrow> ref \<Rightarrow> bool" where
  "inclusive_ancestor h a b = ancestor_within (length h) h a b"

text \<open>Taking a node out of the child list of its parent.\<close>

definition detach :: "store \<Rightarrow> ref \<Rightarrow> store" where
  "detach h r =
     (case map_of h r of
        None \<Rightarrow> h
      | Some x \<Rightarrow>
          (case n_parent x of
             None \<Rightarrow> h
           | Some p \<Rightarrow>
               (let h1 = (case map_of h p of
                            None \<Rightarrow> h
                          | Some px \<Rightarrow> set_key h p (px\<lparr>n_children := removeAll r (n_children px)\<rparr>))
                in set_key h1 r (x\<lparr>n_parent := None\<rparr>))))"

text \<open>The list with \<open>r\<close> put in front of the first occurrence of \<open>c\<close>, or at the end.\<close>

fun put_before :: "ref \<Rightarrow> ref \<Rightarrow> ref list \<Rightarrow> ref list" where
  "put_before c r [] = [r]"
| "put_before c r (k # ks) = (if k = c then r # k # ks else k # put_before c r ks)"

definition kinds_of :: "store \<Rightarrow> ref list \<Rightarrow> node_kind list" where
  "kinds_of h rs = List.map_filter (kind_of h) rs"

text \<open>
  \<open>parent.insertBefore(node, child)\<close>.  The checks are those of the standard, in its
  order: the parent must be a document or an element; the node must not be an inclusive
  ancestor of the parent; the child, if given, must be a child of the parent; the node
  must not be a document; a text node does not go into a document, nor a doctype into
  anything else; and a document takes one element and one doctype, the doctype first.
  Then the node leaves its old parent and enters the child list.  A reference that is not
  in the store does not come up, and the model answers \<open>Unmodelled\<close> for it.
\<close>

definition insertBefore :: "store \<Rightarrow> ref \<Rightarrow> ref \<Rightarrow> ref option \<Rightarrow> exn + store" where
  "insertBefore h p r child =
     (case (map_of h p, map_of h r) of
        (Some px, Some rx) \<Rightarrow>
          if n_kind px \<noteq> DocumentNode \<and> n_kind px \<noteq> ElementNode then Inl HierarchyRequestError
          else if inclusive_ancestor h r p then Inl HierarchyRequestError
          else if (case child of None \<Rightarrow> False | Some c \<Rightarrow> parentNode h c \<noteq> Some p)
          then Inl NotFoundError
          else if n_kind rx = DocumentNode then Inl HierarchyRequestError
          else if (n_kind rx = TextNode \<and> n_kind px = DocumentNode) \<or>
                  (n_kind rx = DoctypeNode \<and> n_kind px \<noteq> DocumentNode)
          then Inl HierarchyRequestError
          else if n_kind px = DocumentNode \<and> n_kind rx = ElementNode \<and>
                  (ElementNode \<in> set (kinds_of h (n_children px)) \<or>
                   (case child of
                      None \<Rightarrow> False
                    | Some c \<Rightarrow> DoctypeNode \<in> set (kinds_of h (dropWhile (\<lambda>k. k \<noteq> c) (n_children px)))))
          then Inl HierarchyRequestError
          else if n_kind px = DocumentNode \<and> n_kind rx = DoctypeNode \<and>
                  (DoctypeNode \<in> set (kinds_of h (n_children px)) \<or>
                   (case child of
                      None \<Rightarrow> ElementNode \<in> set (kinds_of h (n_children px))
                    | Some c \<Rightarrow> ElementNode \<in> set (kinds_of h (takeWhile (\<lambda>k. k \<noteq> c) (n_children px)))))
          then Inl HierarchyRequestError
          else
            (let reference = (if child = Some r
                              then (case dropWhile (\<lambda>k. k \<noteq> r) (n_children px) of
                                      _ # k # _ \<Rightarrow> Some k
                                    | _ \<Rightarrow> None)
                              else child);
                 h1 = detach h r;
                 kids = (case map_of h1 p of None \<Rightarrow> [] | Some px1 \<Rightarrow> n_children px1);
                 kids' = (case reference of None \<Rightarrow> kids @ [r] | Some c \<Rightarrow> put_before c r kids);
                 h2 = (case map_of h1 p of
                         None \<Rightarrow> h1
                       | Some px1 \<Rightarrow> set_key h1 p (px1\<lparr>n_children := kids'\<rparr>))
             in Inr (case map_of h2 r of
                       None \<Rightarrow> h2
                     | Some rx2 \<Rightarrow> set_key h2 r (rx2\<lparr>n_parent := Some p\<rparr>)))
      | _ \<Rightarrow> Inl Unmodelled)"

text \<open>\<open>parent.removeChild(child)\<close>: the child must be a child of the parent.\<close>

definition removeChild :: "store \<Rightarrow> ref \<Rightarrow> ref \<Rightarrow> exn + store" where
  "removeChild h p c = (if parentNode h c \<noteq> Some p then Inl NotFoundError else Inr (detach h c))"

text \<open>
  Names.  \<open>createElement\<close> and \<open>setAttribute\<close> throw \<open>InvalidCharacterError\<close> for a
  name that is not a name of XML: a letter, an underscore, a colon or a character beyond
  ASCII, followed by such characters, digits, hyphens and periods.
\<close>

definition name_start :: "char \<Rightarrow> bool" where
  "name_start c = (c \<in> set lower_letters \<or> c \<in> set upper_letters \<or> c = CHR ''_'' \<or>
     c = CHR '':'' \<or> (of_char c :: nat) \<ge> 128)"

definition name_char :: "char \<Rightarrow> bool" where
  "name_char c = (name_start c \<or> c \<in> set ''0123456789'' \<or> c = CHR ''-'' \<or> c = CHR ''.'')"

definition valid_name :: "string \<Rightarrow> bool" where
  "valid_name nm = (case nm of [] \<Rightarrow> False | c # cs \<Rightarrow> name_start c \<and> list_all name_char cs)"

text \<open>The decimal numeral of a number, as a template literal prints it.\<close>

function decimal :: "nat \<Rightarrow> string" where
  "decimal n = (if n < 10 then [''0123456789'' ! n]
                else decimal (n div 10) @ [''0123456789'' ! (n mod 10)])"
  by pat_completeness auto
termination
  by (relation "measure (\<lambda>n. n)") auto


declare decimal.simps [simp del]

section \<open>Reconstructor (src/decode/render.ts)\<close>

text \<open>
  Modelled from the spec: the wire record \<open>IDecodedNode\<close> of the type declarations, which
  are not among the sources: an id, a parent id and a next-sibling id that may be
  \<open>null\<close>, a tag, and optionally an attribute map and a value.
\<close>

record IDecodedNode =
  d_id :: nat
  d_parent :: "nat option"
  d_next :: "nat option"
  d_tag :: string
  d_attributes :: "attrs option"
  d_value :: "string option"

text \<open>
  What \<open>console.warn\<close> is given: for a failed insertion the node, the parent, the record
  and the exception; for a failed attribute the node, the attributes and the exception.
\<close>

datatype warning =
    InsertWarning ref ref IDecodedNode exn
  | AttributeWarning ref attrs exn

text \<open>
  The state: the module variable \<open>nodes\<close> (here \<open>id_table\<close>), the store of the target
  document with the next free reference, the document of the frame, the console, and
  whether the browser has \<open>XMLSerializer\<close>.
\<close>

record replay =
  id_table :: "(nat \<times> ref) list"
  heap :: store
  next_ref :: ref
  doc :: ref
  console :: "warning list"
  has_XMLSerializer :: bool

definition svgns :: string where
  "svgns = ''http://www.w3.org/2000/svg''"

definition alloc :: "dnode \<Rightarrow> replay \<Rightarrow> ref \<times> replay" where
  "alloc x st = (next_ref st, st\<lparr>heap := set_key (heap st) (next_ref st) x,
                                  next_ref := next_ref st + 1\<rparr>)"

text \<open>\<open>element(nodeId)\<close>.\<close>

definition element_of :: "replay \<Rightarrow> nat option \<Rightarrow> ref option" where
  "element_of st nodeId =
     (case nodeId of None \<Rightarrow> None | Some i \<Rightarrow> if i > 0 then map_of (id_table st) i else None)"

text \<open>
  \<open>doc.createElement(tag)\<close> and \<open>doc.createElementNS(ns, tag)\<close>; a qualified name
  has at most one colon and no empty part.
\<close>

definition doc_createElement :: "string \<Rightarrow> replay \<Rightarrow> exn + (ref \<times> replay)" where
  "doc_createElement tag' st =
     (if \<not> valid_name tag' then Inl InvalidCharacterError
      else Inr (alloc (new_node ElementNode tag') st))"

definition doc_createElementNS :: "string \<Rightarrow> string \<Rightarrow> replay \<Rightarrow> exn + (ref \<times> replay)" where
  "doc_createElementNS ns tag' st =
     (if \<not> valid_name tag' \<or> list_ex (\<lambda>part. part = []) (split_on CHR '':'' tag') \<or>
         length (split_on CHR '':'' tag') > 2
      then Inl InvalidCharacterError
      else Inr (alloc (new_node ElementNode tag') st))"

text \<open>
  \<open>createElement(doc, tag, parent)\<close>: an element of the SVG namespace for a tag that
  begins with \<open>s:\<close>, an element of the document otherwise.
\<close>

definition createElement :: "string \<Rightarrow> replay \<Rightarrow> exn + (ref \<times> replay)" where
  "createElement tag' st =
     (if tag' \<noteq> [] \<and> str_indexOf tag' ''s:'' = 0 then doc_createElementNS svgns tag' st
      else doc_createElement tag' st)"

definition createTextNode :: "replay \<Rightarrow> ref \<times> replay" where
  "createTextNode st = alloc (new_node TextNode ''#text'') st"

text \<open>
  \<open>setAttributes(node, attributes)\<close>.  The first loop removes the attributes of an
  element one by one, which leaves none.  The second loop sets every attribute of the
  record; a failure is caught and logged, and the loop goes on.  On a node that is not an
  element \<open>setAttribute\<close> is not a function.  For \<open>null\<close> in place of the node the
  first line throws.
\<close>

definition setAttribute :: "store \<Rightarrow> ref \<Rightarrow> string \<Rightarrow> string \<Rightarrow> exn + store" where
  "setAttribute h r nm v =
     (case map_of h r of
        None \<Rightarrow> Inl Unmodelled
      | Some x \<Rightarrow>
          if n_kind x \<noteq> ElementNode then Inl TypeError
          else if \<not> valid_name nm then Inl InvalidCharacterError
          else Inr (set_key h r (x\<lparr>n_attrs := set_key (n_attrs x) nm v\<rparr>)))"

definition removeAttributes :: "store \<Rightarrow> ref \<Rightarrow> store" where
  "removeAttributes h r =
     (case map_of h r of
        None \<Rightarrow> h
      | Some x \<Rightarrow> if n_kind x = ElementNode then set_key h r (x\<lparr>n_attrs := []\<rparr>) else h)"

fun setAttributes_loop :: "ref \<Rightarrow> attrs \<Rightarrow> attrs \<Rightarrow> replay \<Rightarrow> replay" where
  "setAttributes_loop r all [] st = st"
| "setAttributes_loop r all ((nm, v) # rest) st =
     (case setAttribute (heap st) r nm v of
        Inl ex \<Rightarrow>
          setAttributes_loop r all rest (st\<lparr>console := console st @ [AttributeWarning r all ex]\<rparr>)
      | Inr h \<Rightarrow> setAttributes_loop r all rest (st\<lparr>heap := h\<rparr>))"

definition setAttributes :: "ref option \<Rightarrow> attrs option \<Rightarrow> replay \<Rightarrow> exn + replay" where
  "setAttributes node' attributes' st =
     (case node' of
        None \<Rightarrow> Inl TypeError
      | Some r \<Rightarrow>
          (let st1 = st\<lparr>heap := removeAttributes (heap st) r\<rparr>;
               a = (case attributes' of None \<Rightarrow> [] | Some a \<Rightarrow> a)
           in Inr (setAttributes_loop r a a st1)))"

text \<open>
  \<open>insert(data, parent, node, next)\<close>, named \<open>insert_node\<close> here.  \<open>resolve_next\<close>
  is its first assignment: a next sibling whose parent element is not the parent counts
  as unknown.  The call of \<open>insertBefore\<close> is inside \<open>try\<close>; the call of
  \<open>removeChild\<close> is not.
\<close>

definition resolve_next :: "store \<Rightarrow> ref \<Rightarrow> ref option \<Rightarrow> ref option" where
  "resolve_next h p next' =
     (case next' of
        None \<Rightarrow> None
      | Some k \<Rightarrow> if parentElement h k \<noteq> Some p then None else Some k)"

definition insert_node ::
  "IDecodedNode \<Rightarrow> ref option \<Rightarrow> ref \<Rightarrow> ref option \<Rightarrow> replay \<Rightarrow> exn + replay" where
  "insert_node data' parent r next' st =
     (let finish = (\<lambda>st'. Inr (st'\<lparr>id_table := set_key (id_table st') (d_id data') r\<rparr>))
      in case parent of
           Some p \<Rightarrow>
             (case insertBefore (heap st) p r (resolve_next (heap st) p next') of
                Inr h \<Rightarrow> finish (st\<lparr>heap := h\<rparr>)
              | Inl ex \<Rightarrow> finish (st\<lparr>console := console st @ [InsertWarning r p data' ex]\<rparr>))
         | None \<Rightarrow>
             (case parentElement (heap st) r of
                Some q \<Rightarrow>
                  (case removeChild (heap st) q r of
                     Inl ex \<Rightarrow> Inl ex
                   | Inr h \<Rightarrow> finish (st\<lparr>heap := h\<rparr>))
              | None \<Rightarrow> finish st))"

text \<open>
  The branches of the \<open>switch\<close> of \<open>markup\<close>, one definition each; \<open>parent\<close> and
  \<open>next\<close> are resolved before the \<open>switch\<close>.  Setting \<open>nodeValue\<close> changes a
  text node and nothing else.  \<open>node.attributes["name"]\<close> on a
  record without attributes is a \<open>TypeError\<close>; an attribute that the map does not have
  reads as \<open>undefined\<close>.
\<close>

definition attr_or_undefined :: "attrs \<Rightarrow> string \<Rightarrow> string" where
  "attr_or_undefined a k = (case map_of a k of None \<Rightarrow> ''undefined'' | Some v \<Rightarrow> v)"

text \<open>
  The doctype record.  \<open>doc.open()\<close>, \<open>doc.write(...)\<close> of the serialised doctype and
  \<open>doc.close()\<close> leave a document that holds the doctype and what the HTML parser adds
  to it: a root element with a head and a body.  The former children of the document are
  detached.
\<close>

definition markup_doctype :: "IDecodedNode \<Rightarrow> replay \<Rightarrow> exn + replay" where
  "markup_doctype node' st =
     (if has_XMLSerializer st
      then (case d_attributes node' of
              None \<Rightarrow> Inl TypeError
            | Some a \<Rightarrow>
                if \<not> valid_name (attr_or_undefined a ''name'') then Inl InvalidCharacterError
                else
                  (let d = doc st;
                       old = (case map_of (heap st) d of None \<Rightarrow> [] | Some dx \<Rightarrow> n_children dx);
                       st0 = st\<lparr>heap := fold (\<lambda>c h. detach h c) old (heap st)\<rparr>;
                       (dt, st1) = alloc ((new_node DoctypeNode (attr_or_undefined a ''name''))
                                            \<lparr>n_parent := Some d\<rparr>) st0;
                       (ht, st2) = alloc ((new_node ElementNode ''HTML'')\<lparr>n_parent := Some d\<rparr>) st1;
                       (hd', st3) = alloc ((new_node ElementNode ''HEAD'')\<lparr>n_parent := Some ht\<rparr>) st2;
                       (bd, st4) = alloc ((new_node ElementNode ''BODY'')\<lparr>n_parent := Some ht\<rparr>) st3;
                       h5 = (case map_of (heap st4) ht of
                               None \<Rightarrow> heap st4
                             | Some hx \<Rightarrow> set_key (heap st4) ht (hx\<lparr>n_children := [hd', bd]\<rparr>));
                       h6 = (case map_of h5 d of
                               None \<Rightarrow> h5
                             | Some dx \<Rightarrow> set_key h5 d (dx\<lparr>n_children := [dt, ht]\<rparr>))
                   in Inr (st4\<lparr>heap := h6\<rparr>)))
      else Inr st)"

definition markup_text ::
  "IDecodedNode \<Rightarrow> ref option \<Rightarrow> ref option \<Rightarrow> replay \<Rightarrow> exn + replay" where
  "markup_text node' parent next' st =
     (let (textElement, st1) = (case element_of st (Some (d_id node')) of
                                  Some r \<Rightarrow> (r, st)
                                | None \<Rightarrow> createTextNode st);
          v = (case d_value node' of None \<Rightarrow> [] | Some w \<Rightarrow> w);
          h = (case map_of (heap st1) textElement of
                 None \<Rightarrow> heap st1
               | Some x \<Rightarrow> if n_kind x = TextNode
                           then set_key (heap st1) textElement (x\<lparr>n_data := v\<rparr>)
                           else heap st1)
      in insert_node node' parent textElement next' (st1\<lparr>heap := h\<rparr>))"

text \<open>\<open>doc.documentElement\<close>: the first child of the document that is an element.\<close>

definition documentElement :: "replay \<Rightarrow> ref option" where
  "documentElement st =
     (case map_of (heap st) (doc st) of
        None \<Rightarrow> None
      | Some dx \<Rightarrow> List.find (\<lambda>c. kind_of (heap st) c = Some ElementNode) (n_children dx))"

text \<open>
  The root record.  \<open>html_element\<close> is the find-or-create at the start of the
  branch.  On first creation the root element of a fresh document is imported
  and put in the place of the root element of the target; its head and its body are
  removed at once, and the model does not create them.  \<open>replaceChild\<close> with \<open>null\<close>
  for the old child is a \<open>TypeError\<close>, and so is \<open>setAttributes\<close> on a document that
  has no root element; the last \<open>None\<close> of \<open>markup_html\<close> stands for that same case
  and is not reached.
\<close>

definition html_element :: "IDecodedNode \<Rightarrow> replay \<Rightarrow> exn + replay" where
  "html_element node' st =
     (case element_of st (Some (d_id node')) of
        Some r \<Rightarrow> Inr st
      | None \<Rightarrow>
          (case documentElement st of
             None \<Rightarrow> Inl TypeError
           | Some old \<Rightarrow>
               (let d = doc st;
                    (pointer, st1) = alloc ((new_node ElementNode ''HTML'')\<lparr>n_parent := Some d\<rparr>) st;
                    h2 = (case map_of (heap st1) d of
                            None \<Rightarrow> heap st1
                          | Some dx \<Rightarrow>
                              set_key (heap st1) d
                                (dx\<lparr>n_children :=
                                      map (\<lambda>c. if c = old then pointer else c) (n_children dx)\<rparr>));
                    h3 = (case map_of h2 old of
                            None \<Rightarrow> h2
                          | Some ox \<Rightarrow> set_key h2 old (ox\<lparr>n_parent := None\<rparr>))
                in Inr (st1\<lparr>heap := h3\<rparr>))))"

definition markup_html :: "IDecodedNode \<Rightarrow> replay \<Rightarrow> exn + replay" where
  "markup_html node' st =
     (case html_element node' st of
        Inl ex \<Rightarrow> Inl ex
      | Inr st4 \<Rightarrow>
          (case setAttributes (documentElement st4) (d_attributes node') st4 of
             Inl ex \<Rightarrow> Inl ex
           | Inr st5 \<Rightarrow>
               (case documentElement st5 of
                  None \<Rightarrow> Inl TypeError
                | Some e \<Rightarrow> Inr (st5\<lparr>id_table := set_key (id_table st5) (d_id node') e\<rparr>))))"

text \<open>
  The head record.  \<open>head_element\<close> is the find-or-create at the start of the branch: on
  first creation a \<open>base\<close> element is appended whose \<open>href\<close> is the attribute \<open>*B\<close>,
  and \<open>*B\<close> is deleted from the record; the result carries the record as it is after
  that.
\<close>

definition head_element :: "IDecodedNode \<Rightarrow> replay \<Rightarrow> exn + (ref \<times> IDecodedNode \<times> replay)" where
  "head_element node' st =
     (case element_of st (Some (d_id node')) of
        Some r \<Rightarrow> Inr (r, node', st)
      | None \<Rightarrow>
          (case doc_createElement (d_tag node') st of
             Inl ex \<Rightarrow> Inl ex
           | Inr (headElement, st1) \<Rightarrow>
               (case doc_createElement ''base'' st1 of
                  Inl ex \<Rightarrow> Inl ex
                | Inr (base, st2) \<Rightarrow>
                    (case d_attributes node' of
                       None \<Rightarrow> Inl TypeError
                     | Some a \<Rightarrow>
                         (case setAttribute (heap st2) base ''href'' (attr_or_undefined a ''*B'') of
                            Inl ex \<Rightarrow> Inl ex
                          | Inr h3 \<Rightarrow>
                              (case insertBefore h3 headElement base None of
                                 Inl ex \<Rightarrow> Inl ex
                               | Inr h4 \<Rightarrow>
                                   Inr (headElement,
                                        node'\<lparr>d_attributes :=
                                                 Some (filter (\<lambda>(k, v). k \<noteq> ''*B'') a)\<rparr>,
                                        st2\<lparr>heap := h4\<rparr>)))))))"

definition markup_head ::
  "IDecodedNode \<Rightarrow> ref option \<Rightarrow> ref option \<Rightarrow> replay \<Rightarrow> exn + replay" where
  "markup_head node' parent next' st =
     (case head_element node' st of
        Inl ex \<Rightarrow> Inl ex
      | Inr (headElement, node'', st5) \<Rightarrow>
          (case setAttributes (Some headElement) (d_attributes node'') st5 of
             Inl ex \<Rightarrow> Inl ex
           | Inr st6 \<Rightarrow> insert_node node'' parent headElement next' st6))"

text \<open>The default branch.  It writes the attribute \<open>data-id\<close> into the record.\<close>

definition markup_default ::
  "IDecodedNode \<Rightarrow> ref option \<Rightarrow> ref option \<Rightarrow> replay \<Rightarrow> exn + replay" where
  "markup_default node' parent next' st =
     (case (case element_of st (Some (d_id node')) of
              Some r \<Rightarrow> Inr (r, st)
            | None \<Rightarrow> createElement (d_tag node') st) of
        Inl ex \<Rightarrow> Inl ex
      | Inr (domElement, st1) \<Rightarrow>
          (let a = (case d_attributes node' of None \<Rightarrow> [] | Some a \<Rightarrow> a);
               node'' = node'\<lparr>d_attributes := Some (set_key a ''data-id'' (decimal (d_id node')))\<rparr>
           in case setAttributes (Some domElement) (d_attributes node'') st1 of
                Inl ex \<Rightarrow> Inl ex
              | Inr st2 \<Rightarrow> insert_node node'' parent domElement next' st2))"

text \<open>
  \<open>textContent = value\<close> on an element: its children are replaced by one text node
  with the value, or by nothing for an empty value.
\<close>

definition set_textContent :: "ref \<Rightarrow> string option \<Rightarrow> replay \<Rightarrow> replay" where
  "set_textContent r v st =
     (case map_of (heap st) r of
        None \<Rightarrow> st
      | Some x \<Rightarrow>
          if n_kind x \<noteq> ElementNode
          then st\<lparr>heap := set_key (heap st) r (x\<lparr>n_data := (case v of None \<Rightarrow> [] | Some w \<Rightarrow> w)\<rparr>)\<rparr>
          else
            (let st0 = st\<lparr>heap := fold (\<lambda>c h. detach h c) (n_children x) (heap st)\<rparr>
             in case v of
                  None \<Rightarrow> st0
                | Some w \<Rightarrow>
                    if w = [] then st0
                    else (let (t, st1) = alloc ((new_node TextNode ''#text'')
                                                  \<lparr>n_data := w, n_parent := Some r\<rparr>) st0
                          in st1\<lparr>heap := (case map_of (heap st1) r of
                                              None \<Rightarrow> heap st1
                                            | Some x1 \<Rightarrow> set_key (heap st1) r (x1\<lparr>n_children := [t]\<rparr>))\<rparr>)))"

text \<open>
  The style branch.  It has no \<open>break\<close>: after its own \<open>insert\<close> the statements of the
  default branch run for the same record.
\<close>

definition markup_style ::
  "IDecodedNode \<Rightarrow> ref option \<Rightarrow> ref option \<Rightarrow> replay \<Rightarrow> exn + replay" where
  "markup_style node' parent next' st =
     (case (case element_of st (Some (d_id node')) of
              Some r \<Rightarrow> Inr (r, st)
            | None \<Rightarrow> doc_createElement (d_tag node') st) of
        Inl ex \<Rightarrow> Inl ex
      | Inr (styleElement, st1) \<Rightarrow>
          (case setAttributes (Some styleElement) (d_attributes node') st1 of
             Inl ex \<Rightarrow> Inl ex
           | Inr st2 \<Rightarrow>
               (case insert_node node' parent styleElement next'
                       (set_textContent styleElement (d_value node') st2) of
                  Inl ex \<Rightarrow> Inl ex
                | Inr st3 \<Rightarrow> markup_default node' parent next' st3)))"

text \<open>The body of the loop of \<open>markup\<close>, and the loop.  An exception ends the loop.\<close>

definition markup_node :: "IDecodedNode \<Rightarrow> replay \<Rightarrow> exn + replay" where
  "markup_node node' st =
     (let parent = element_of st (d_parent node');
          next' = element_of st (d_next node')
      in if d_tag node' = ''*D'' then markup_doctype node' st
         else if d_tag node' = ''*T'' then markup_text node' parent next' st
         else if d_tag node' = ''HTML'' then markup_html node' st
         else if d_tag node' = ''HEAD'' then markup_head node' parent next' st
         else if d_tag node' = ''STYLE'' then markup_style node' parent next' st
         else markup_default node' parent next' st)"

fun markup :: "IDecodedNode list \<Rightarrow> replay \<Rightarrow> exn + replay" where
  "markup [] st = Inr st"
| "markup (node' # rest) st =
     (case markup_node node' st of Inl ex \<Rightarrow> Inl ex | Inr st' \<Rightarrow> markup rest st')"


section \<open>Observations and example inputs\<close>

subsection \<open>For the capture and the node registry\<close>

text \<open>The masked flag that the registry holds for an id, if the id has a value.\<close>

definition masked_of :: "registry \<Rightarrow> nat \<Rightarrow> bool option" where
  "masked_of s j = map_option (\<lambda>v. masked (v_metadata v)) (values s j)"

text \<open>The child list that the registry holds for an id.\<close>

definition children_of :: "registry \<Rightarrow> nat \<Rightarrow> nat list option" where
  "children_of s j = map_option v_children (values s j)"

text \<open>
  An environment for the examples: the strings of \<open>Constant\<close> as the product ships
  them, a selector function that makes \<open>tag#id\<close> for an element with an id and joins
  the prefix and the tag otherwise, the identity for URLs, the
  devtools hook absent, and a document in which no node has a following sibling or a
  shadow root (an example that needs siblings sets \<open>nextSiblings\<close>).
\<close>

definition K0 :: Constant where
  "K0 = \<lparr>TAG_INPUT = ''INPUT'', NAME_ATTRIBUTE = ''name'', TYPE_ATTRIBUTE = ''type'',
     MASK_ATTRIBUTE = ''data-clarity-mask'', UNMASK_ATTRIBUTE = ''data-clarity-unmask'',
     ID_ATTRIBUTE = ''id'', CLASS_ATTRIBUTE = ''class'', HREF_ATTRIBUTE = ''href'',
     SRC_ATTRIBUTE = ''src'', SRCSET_ATTRIBUTE = ''srcset'', DATA_PREFIX = ''data:'',
     CLARITY_REGION_ATTRIBUTE = ''data-clarity-region''\<rparr>"

definition sel0 :: "string \<Rightarrow> string option \<Rightarrow> attrs option \<Rightarrow> nat option \<Rightarrow> string" where
  "sel0 t prefix' a pos =
     (case (case a of None \<Rightarrow> None | Some m \<Rightarrow> map_of m ''id'') of
        Some x \<Rightarrow> t @ ''#'' @ x
      | None \<Rightarrow> (case prefix' of None \<Rightarrow> t | Some q \<Rightarrow> q @ t))"

definition E0 :: dom_env where
  "E0 = \<lparr>K = K0, selector_fn = sel0, fullUrl = (\<lambda>u. u), lean = False, devtools_hook = False,
     time = 0, nextSiblings = (\<lambda>n. []), shadowRoot = (\<lambda>n. None)\<rparr>"

definition info :: "string \<Rightarrow> attrs \<Rightarrow> NodeInfo" where
  "info t a = \<lparr>tag = t, path = None, attributes = Some a, layout = None, style = None,
     val = None\<rparr>"



text \<open>
  For the statements about \<open>updates\<close>: the test \<open>hasId\<close> of its loop, a node value
  with its path blanked, the path that the registry holds for an id, and the ids and
  paths of the records that a flush returns.
\<close>

definition has_id :: "Constant \<Rightarrow> NodeValue \<Rightarrow> bool" where
  "has_id C v = (case attributes (v_data v) of None \<Rightarrow> False | Some a \<Rightarrow> has_key a (ID_ATTRIBUTE C))"

definition without_path :: "NodeValue \<Rightarrow> NodeValue" where
  "without_path v = v\<lparr>v_data := (v_data v)\<lparr>path := None\<rparr>\<rparr>"

definition path_of :: "registry \<Rightarrow> nat \<Rightarrow> string option option" where
  "path_of s j = map_option (\<lambda>v. path (v_data v)) (values s j)"

definition flushed_paths :: "Constant \<Rightarrow> registry \<Rightarrow> exn + (nat \<times> string option) list" where
  "flushed_paths C s =
     (case updates C s of
        Inl e \<Rightarrow> Inl e
      | Inr (output, s') \<Rightarrow> Inr (map (\<lambda>v. (v_id v, path (v_data v))) output))"

text \<open>
  The path of a drained record in the words of the specification: the selector of the
  nearest ancestor, unless that ancestor is itself pending in this flush or carries the
  id attribute, and then \<open>null\<close>.
\<close>

definition spec_path :: "Constant \<Rightarrow> registry \<Rightarrow> NodeValue \<Rightarrow> string option" where
  "spec_path C s v =
     (case v_parent v of
        None \<Rightarrow> None
      | Some q \<Rightarrow>
          (case values s q of
             None \<Rightarrow> None
           | Some pv \<Rightarrow> if q \<in> set (updateMap s) \<or> has_id C pv then None
                        else Some (v_selector pv)))"


text \<open>
  The path that one round of the loop of \<open>updates\<close> writes for a value, and the
  relation between two registries that differ in the paths of their values at most.
\<close>

definition loop_path :: "Constant \<Rightarrow> registry \<Rightarrow> NodeValue \<Rightarrow> string option" where
  "loop_path C s v =
     (case v_parent v of
        None \<Rightarrow> None
      | Some q \<Rightarrow> if q < length (updateMap s) \<or> has_id C v \<or> v_selector v = [] then None
                  else map_option v_selector (values s q))"

definition same_but_paths :: "registry \<Rightarrow> registry \<Rightarrow> bool" where
  "same_but_paths s s' =
     (updateMap s' = updateMap s \<and>
      (\<forall>j. map_option without_path (values s' j) = map_option without_path (values s j)))"


text \<open>
  Registries for the examples, written out.  \<open>nv\<close> is a node value as \<open>add\<close> leaves
  it for an element that is not masked out of the ordinary: no next sibling, no region,
  active, masked by default.
\<close>

definition nv ::
  "nat \<Rightarrow> nat option \<Rightarrow> nat list \<Rightarrow> nat option \<Rightarrow> string \<Rightarrow> attrs \<Rightarrow> string \<Rightarrow> NodeValue" where
  "nv i parent cs pos t a sel =
     \<lparr>v_id = i, v_parent = parent, v_next = None, v_children = cs, v_position = pos,
      v_data = info t a, v_selector = sel, v_region = None,
      v_metadata = \<lparr>active = True, boxmodel = False, masked = True\<rparr>\<rparr>"

text \<open>
  \<open>s_open\<close>: after \<open>add\<close> of the live node 10, an element that carries the unmask
  override (id 1, not masked).
\<close>

definition s_open :: registry where
  "s_open = reset\<lparr>index := 2, nodes := [1 \<mapsto> 10], idMap := [10 \<mapsto> 1],
     values := [1 \<mapsto> (nv 1 None [] None ''DIV'' [(''data-clarity-unmask'', ''true'')] ''DIV'')
                  \<lparr>v_metadata := \<lparr>active = True, boxmodel = False, masked = False\<rparr>\<rparr>],
     updateMap := [1], selectorMap := [1]\<rparr>"

text \<open>
  \<open>s_child\<close>: the live node 10, an element with the id attribute, has been added (id 1)
  and flushed; then its child, the live node 11, has been added (id 2) and is pending.
\<close>

definition s_child :: registry where
  "s_child = reset\<lparr>index := 3, nodes := [1 \<mapsto> 10, 2 \<mapsto> 11], idMap := [10 \<mapsto> 1, 11 \<mapsto> 2],
     values := [1 \<mapsto> nv 1 None [2] None ''DIV'' [(''id'', ''main'')] ''DIV#main'',
                2 \<mapsto> nv 2 (Some 1) [] (Some 1) ''SPAN'' [] ''DIV#main>SPAN''],
     updateMap := [2], selectorMap := [1, 2]\<rparr>"

text \<open>
  \<open>s_pending\<close>: a root (id 1) that is not pending, its child (id 2) and that child's
  child (id 3), both pending.
\<close>

definition s_pending :: registry where
  "s_pending = reset\<lparr>index := 4, nodes := [1 \<mapsto> 10, 2 \<mapsto> 20, 3 \<mapsto> 30],
     idMap := [10 \<mapsto> 1, 20 \<mapsto> 2, 30 \<mapsto> 3],
     values := [1 \<mapsto> nv 1 None [2] None ''DIV'' [] ''DIV'',
                2 \<mapsto> nv 2 (Some 1) [3] (Some 1) ''DIV'' [] ''DIV>DIV'',
                3 \<mapsto> nv 3 (Some 2) [] (Some 1) ''SPAN'' [] ''DIV>DIV>SPAN''],
     updateMap := [2, 3], selectorMap := [1, 2, 3]\<rparr>"

text \<open>
  \<open>s_tree\<close>: after six calls of \<open>add\<close> on an empty registry, for the root (live node
  10, id 1), its children \<open>P1\<close> (20, id 2) and \<open>P2\<close> (30, id 3), then \<open>S\<close> (40, id 4)
  under \<open>P2\<close>, \<open>A\<close> (50, id 5) under \<open>P1\<close> and \<open>X\<close> (60, id 6) under \<open>P2\<close>.  In
  \<open>E_moved\<close> the live node 50 has been moved in front of the nodes 40 and 60, which are
  then its following siblings.
\<close>

definition s_tree :: registry where
  "s_tree = reset\<lparr>index := 7,
     nodes := [1 \<mapsto> 10, 2 \<mapsto> 20, 3 \<mapsto> 30, 4 \<mapsto> 40, 5 \<mapsto> 50, 6 \<mapsto> 60],
     idMap := [10 \<mapsto> 1, 20 \<mapsto> 2, 30 \<mapsto> 3, 40 \<mapsto> 4, 50 \<mapsto> 5, 60 \<mapsto> 6],
     values := [1 \<mapsto> nv 1 None [2, 3] None ''DIV'' [] ''DIV'',
                2 \<mapsto> nv 2 (Some 1) [5] (Some 1) ''DIV'' [] ''DIV>DIV'',
                3 \<mapsto> nv 3 (Some 1) [4, 6] (Some 2) ''DIV'' [] ''DIV>DIV'',
                4 \<mapsto> nv 4 (Some 3) [] (Some 1) ''SPAN'' [] ''DIV>DIV>SPAN'',
                5 \<mapsto> nv 5 (Some 2) [] (Some 1) ''SPAN'' [] ''DIV>DIV>SPAN'',
                6 \<mapsto> nv 6 (Some 3) [] (Some 2) ''SPAN'' [] ''DIV>DIV>SPAN''],
     updateMap := [1, 2, 3, 4, 5, 6], selectorMap := [1, 2, 3, 4, 5, 6]\<rparr>"

text \<open>
  The registries on the way to the examples above: \<open>s_tree1\<close> to \<open>s_tree5\<close> after the
  first five calls of \<open>add\<close> for \<open>s_tree\<close>; \<open>s_main0\<close> and \<open>s_main\<close> before and
  after the flush that precedes \<open>s_child\<close>; \<open>s_root0\<close>, \<open>s_root\<close> and \<open>s_pending2\<close>
  on the way to \<open>s_pending\<close>.
\<close>

definition s_tree1 :: registry where
  "s_tree1 = reset\<lparr>index := 2, nodes := [1 \<mapsto> 10], idMap := [10 \<mapsto> 1],
     values := [1 \<mapsto> nv 1 None [] None ''DIV'' [] ''DIV''],
     updateMap := [1], selectorMap := [1]\<rparr>"

definition s_tree2 :: registry where
  "s_tree2 = reset\<lparr>index := 3, nodes := [1 \<mapsto> 10, 2 \<mapsto> 20], idMap := [10 \<mapsto> 1, 20 \<mapsto> 2],
     values := [1 \<mapsto> nv 1 None [2] None ''DIV'' [] ''DIV'',
                2 \<mapsto> nv 2 (Some 1) [] (Some 1) ''DIV'' [] ''DIV>DIV''],
     updateMap := [1, 2], selectorMap := [1, 2]\<rparr>"

definition s_tree3 :: registry where
  "s_tree3 = reset\<lparr>index := 4, nodes := [1 \<mapsto> 10, 2 \<mapsto> 20, 3 \<mapsto> 30],
     idMap := [10 \<mapsto> 1, 20 \<mapsto> 2, 30 \<mapsto> 3],
     values := [1 \<mapsto> nv 1 None [2, 3] None ''DIV'' [] ''DIV'',
                2 \<mapsto> nv 2 (Some 1) [] (Some 1) ''DIV'' [] ''DIV>DIV'',
                3 \<mapsto> nv 3 (Some 1) [] (Some 2) ''DIV'' [] ''DIV>DIV''],
     updateMap := [1, 2, 3], selectorMap := [1, 2, 3]\<rparr>"

definition s_tree4 :: registry where
  "s_tree4 = reset\<lparr>index := 5, nodes := [1 \<mapsto> 10, 2 \<mapsto> 20, 3 \<mapsto> 30, 4 \<mapsto> 40],
     idMap := [10 \<mapsto> 1, 20 \<mapsto> 2, 30 \<mapsto> 3, 40 \<mapsto> 4],
     values := [1 \<mapsto> nv 1 None [2, 3] None ''DIV'' [] ''DIV'',
                2 \<mapsto> nv 2 (Some 1) [] (Some 1) ''DIV'' [] ''DIV>DIV'',
                3 \<mapsto> nv 3 (Some 1) [4] (Some 2) ''DIV'' [] ''DIV>DIV'',
                4 \<mapsto> nv 4 (Some 3) [] (Some 1) ''SPAN'' [] ''DIV>DIV>SPAN''],
     updateMap := [1, 2, 3, 4], selectorMap := [1, 2, 3, 4]\<rparr>"

definition s_tree5 :: registry where
  "s_tree5 = reset\<lparr>index := 6,
     nodes := [1 \<mapsto> 10, 2 \<mapsto> 20, 3 \<mapsto> 30, 4 \<mapsto> 40, 5 \<mapsto> 50],
     idMap := [10 \<mapsto> 1, 20 \<mapsto> 2, 30 \<mapsto> 3, 40 \<mapsto> 4, 50 \<mapsto> 5],
     values := [1 \<mapsto> nv 1 None [2, 3] None ''DIV'' [] ''DIV'',
                2 \<mapsto> nv 2 (Some 1) [5] (Some 1) ''DIV'' [] ''DIV>DIV'',
                3 \<mapsto> nv 3 (Some 1) [4] (Some 2) ''DIV'' [] ''DIV>DIV'',
                4 \<mapsto> nv 4 (Some 3) [] (Some 1) ''SPAN'' [] ''DIV>DIV>SPAN'',
                5 \<mapsto> nv 5 (Some 2) [] (Some 1) ''SPAN'' [] ''DIV>DIV>SPAN''],
     updateMap := [1, 2, 3, 4, 5], selectorMap := [1, 2, 3, 4, 5]\<rparr>"

definition s_main0 :: registry where
  "s_main0 = reset\<lparr>index := 2, nodes := [1 \<mapsto> 10], idMap := [10 \<mapsto> 1],
     values := [1 \<mapsto> nv 1 None [] None ''DIV'' [(''id'', ''main'')] ''DIV#main''],
     updateMap := [1], selectorMap := [1]\<rparr>"

definition s_main :: registry where
  "s_main = s_main0\<lparr>updateMap := []\<rparr>"

definition s_root0 :: registry where
  "s_root0 = s_tree1"

definition s_root :: registry where
  "s_root = s_root0\<lparr>updateMap := []\<rparr>"

definition s_pending2 :: registry where
  "s_pending2 = reset\<lparr>index := 3, nodes := [1 \<mapsto> 10, 2 \<mapsto> 20], idMap := [10 \<mapsto> 1, 20 \<mapsto> 2],
     values := [1 \<mapsto> nv 1 None [2] None ''DIV'' [] ''DIV'',
                2 \<mapsto> nv 2 (Some 1) [] (Some 1) ''DIV'' [] ''DIV>DIV''],
     updateMap := [2], selectorMap := [1, 2]\<rparr>"

definition E_moved :: dom_env where
  "E_moved = E0\<lparr>nextSiblings := (\<lambda>n. if n = 50 then [40, 60] else [])\<rparr>"

text \<open>The child lists of two ids after a call of \<open>update\<close>, if the call returns.\<close>

definition children_after ::
  "(exn + registry) option \<Rightarrow> nat \<Rightarrow> nat \<Rightarrow> (nat list option \<times> nat list option) option" where
  "children_after r a b =
     (case r of Some (Inr s') \<Rightarrow> Some (children_of s' a, children_of s' b) | _ \<Rightarrow> None)"

text \<open>
  For the statements about \<open>remove\<close>.  \<open>depth_ok n vs i\<close>: under the id \<open>i\<close> the child
  lists of \<open>vs\<close> form a tree of registered ids of depth less than \<open>n\<close>, and
  \<open>subtree n vs i\<close> lists the ids of that tree.  An id is \<open>deactivated\<close> when its value
  is inactive and has no children.  \<open>child_rel\<close> and \<open>reach\<close> are the edges of the child
  lists and what they reach; \<open>remove_frame s s' T\<close> says that from \<open>s\<close> to \<open>s'\<close> the
  ids of \<open>T\<close> were deactivated and nothing else about the values changed, that the
  histories grew at the end only, and that the id counter and the id map stayed.
\<close>

fun depth_ok :: "nat \<Rightarrow> (nat \<rightharpoonup> NodeValue) \<Rightarrow> nat \<Rightarrow> bool" where
  "depth_ok 0 vs i = False"
| "depth_ok (Suc n) vs i =
     (case vs i of None \<Rightarrow> False | Some v \<Rightarrow> list_all (depth_ok n vs) (v_children v))"

fun subtree :: "nat \<Rightarrow> (nat \<rightharpoonup> NodeValue) \<Rightarrow> nat \<Rightarrow> nat list" where
  "subtree 0 vs i = []"
| "subtree (Suc n) vs i =
     (case vs i of None \<Rightarrow> [] | Some v \<Rightarrow> i # concat (map (subtree n vs) (v_children v)))"

definition deactivated :: "registry \<Rightarrow> nat \<Rightarrow> bool" where
  "deactivated s d =
     (case values s d of None \<Rightarrow> False | Some v \<Rightarrow> \<not> active (v_metadata v) \<and> v_children v = [])"

definition child_rel :: "(nat \<rightharpoonup> NodeValue) \<Rightarrow> (nat \<times> nat) set" where
  "child_rel vs = {(a, b). \<exists>v. vs a = Some v \<and> b \<in> set (v_children v)}"

definition reach :: "registry \<Rightarrow> nat \<Rightarrow> nat set" where
  "reach s i = {d. (i, d) \<in> (child_rel (values s))\<^sup>*}"

definition remove_frame :: "registry \<Rightarrow> registry \<Rightarrow> nat set \<Rightarrow> bool" where
  "remove_frame s s' T =
     ((\<forall>d \<in> T. deactivated s' d) \<and>
      (\<forall>d. d \<notin> T \<longrightarrow> values s' d = values s d) \<and>
      (\<forall>j. prefix (history s j) (history s' j)) \<and>
      index s' = index s \<and> idMap s' = idMap s \<and> nodes s' = nodes s)"


subsection \<open>For the reconstructor\<close>

text \<open>
  For the examples of a replay: an empty frame, whose document holds a root element and
  nothing else, and the attributes and the children that a replay leaves on the node of
  an id.
\<close>

definition empty_frame :: replay where
  "empty_frame = \<lparr>id_table = [],
     heap = [(0, (new_node DocumentNode ''#document'')\<lparr>n_children := [1]\<rparr>),
             (1, (new_node ElementNode ''HTML'')\<lparr>n_parent := Some 0\<rparr>)],
     next_ref = 2, doc = 0, console = [], has_XMLSerializer = True\<rparr>"

definition node_of :: "exn + replay \<Rightarrow> nat \<Rightarrow> dnode option" where
  "node_of r i =
     (case r of
        Inl ex \<Rightarrow> None
      | Inr st \<Rightarrow> (case map_of (id_table st) i of None \<Rightarrow> None | Some k \<Rightarrow> map_of (heap st) k))"

definition attributes_of :: "exn + replay \<Rightarrow> nat \<Rightarrow> attrs option" where
  "attributes_of r i = map_option n_attrs (node_of r i)"

definition record_of ::
  "nat \<Rightarrow> nat option \<Rightarrow> string \<Rightarrow> attrs \<Rightarrow> string option \<Rightarrow> IDecodedNode" where
  "record_of i parent t a v =
     \<lparr>d_id = i, d_parent = parent, d_next = None, d_tag = t, d_attributes = Some a, d_value = v\<rparr>"

definition style_stream :: "IDecodedNode list" where
  "style_stream =
     [record_of 1 None ''HTML'' [] None,
      record_of 2 (Some 1) ''HEAD'' [(''*B'', ''https://example.com/'')] None,
      record_of 3 (Some 2) ''STYLE'' [(''type'', ''text/css'')] (Some ''p{}'')]"








definition console_of :: "exn + replay \<Rightarrow> warning list option" where
  "console_of r = (case r of Inl ex \<Rightarrow> None | Inr st \<Rightarrow> Some (console st))"



text \<open>A style record whose parent is a text node.\<close>

definition style_under_text :: "IDecodedNode list" where
  "style_under_text =
     [record_of 1 None ''*T'' [] (Some ''x''), record_of 2 (Some 1) ''STYLE'' [] None]"

section \<open>Properties of the counter metrics\<close>

text \<open>
  C9.  For a key that is not yet in the tracker, one call \<open>increment(key, n)\<close> leaves
  the stored counter at \<open>2 * n\<close>: the initialiser stores \<open>n\<close> and the addition that
  follows adds \<open>n\<close> again.  For a key that is already there, the call adds exactly \<open>n\<close>.
  In both cases the entry is flagged as updated.
\<close>

theorem increment_counter:
  "tracker (increment key (Some n) c) key =
     (case tracker c key of
        None \<Rightarrow> Some \<lparr>updated = True, counter = 2 * n\<rparr>
      | Some e \<Rightarrow> Some \<lparr>updated = True, counter = counter e + n\<rparr>)"
  by (cases "tracker c key") (auto simp: increment_def Let_def)

section \<open>Properties of the attribute capture\<close>

text \<open>
  The scroll offsets are written exactly when the element has a layout rectangle and a
  style snapshot that records the horizontal overflow; the vertical overflow plays no
  part in the test.
\<close>

lemma scroll_captured_iff:
  "tagName el \<noteq> Tags_Script E \<Longrightarrow> tagName el \<noteq> Tags_Meta E \<Longrightarrow>
   (case s_layout (fst (createElementLayoutState E st el unmask)) of
      None \<Rightarrow> False
    | Some l \<Rightarrow> scrollX l \<noteq> None \<or> scrollY l \<noteq> None) =
   (case getLayout E el of
      None \<Rightarrow> False
    | Some l \<Rightarrow> (case fst (getStyles st el) of
                   None \<Rightarrow> False
                 | Some style' \<Rightarrow> has_key style' OverflowX))"
  by (auto simp: createElementLayoutState_def Let_def getLayout_def
      split: option.splits prod.splits)


section \<open>Properties of the node registry\<close>

subsection \<open>What the operations leave alone\<close>

lemma values_modify:
  "values (modify i f s) j = (if j = i then map_option f (values s i) else values s j)"
  by (simp add: modify_def)

lemma values_track: "values (track E i source changed s) = values s"
  by (simp add: track_def Let_def)

lemma values_getId: "values (snd (getId s n autogen)) = values s"
  by (simp add: getId_def Let_def)

lemma masked_of_modify:
  "(\<And>v. masked (v_metadata (f v)) = masked (v_metadata v)) \<Longrightarrow>
   masked_of (modify i f s) j = masked_of s j"
  by (cases "values s i") (simp_all add: masked_of_def values_modify)

lemma masked_of_if:
  "masked_of (if c then a else b) j = (if c then masked_of a j else masked_of b j)"
  by simp

lemma masked_of_track: "masked_of (track E i source changed s) j = masked_of s j"
  by (simp add: masked_of_def values_track)

lemma masked_of_position:
  "position E parent c s = Inr (pos, s') \<Longrightarrow> masked_of s' j = masked_of s j"
  by (auto simp: position_def Let_def masked_of_modify split: option.splits if_splits)

lemma masked_of_updateSelector:
  assumes "updateSelector E i s = Inr s'"
  shows "masked_of s' j = masked_of s j"
proof -
  from assms obtain v where v: "values s i = Some v"
    by (auto simp: updateSelector_def split: option.splits)
  from assms v obtain par pos s1 where
    p: "position E par i s = Inr (pos, s1)" and
    s': "s' = modify i (\<lambda>w. w\<lparr>v_selector := selector_fn E (tag (v_data v))
            (case par of None \<Rightarrow> None | Some pv \<Rightarrow> Some (v_selector pv @ ''>''))
            (attributes (v_data v)) pos\<rparr>)
          (if selector_fn E (tag (v_data v))
                (case par of None \<Rightarrow> None | Some pv \<Rightarrow> Some (v_selector pv @ ''>''))
                (attributes (v_data v)) pos \<noteq> v_selector v \<and>
              indexOf (selectorMap s1) (v_id v) = -1
           then s1\<lparr>selectorMap := selectorMap s1 @ [v_id v]\<rparr> else s1)"
    by (auto simp: updateSelector_def Let_def split: sum.splits prod.splits)
  have "masked_of s' j = masked_of s1 j"
    unfolding s' by (simp add: masked_of_modify masked_of_if) (simp add: masked_of_def)
  with masked_of_position[OF p] show ?thesis by simp
qed

lemma masked_of_track_url: "masked_of (track_url E u i s) j = masked_of s j"
  by (simp add: masked_of_def track_url_def)

lemma masked_of_fold_url:
  "masked_of (fold (\<lambda>u t. if P u then track_url E (g u) i t else t) us s) j = masked_of s j"
  by (induction us arbitrary: s) (simp_all add: masked_of_track_url)

lemma masked_of_metadata:
  "metadata E t i parentId s = Inr s' \<Longrightarrow> masked_of s' j = masked_of s j"
proof (cases "parentId = None \<or> values s i = None")
  case True
  assume "metadata E t i parentId s = Inr s'"
  with True show ?thesis by (cases "parentId = None") (auto simp: metadata_def)
next
  case False
  then obtain v where v: "values s i = Some v" and p: "parentId \<noteq> None" by auto
  assume "metadata E t i parentId s = Inr s'"
  then have "masked_of s' j = masked_of (projr (metadata E t i parentId s)) j" by simp
  also have "\<dots> = masked_of s j"
    using v p
    by (simp add: metadata_def Let_def masked_of_if masked_of_modify masked_of_track_url
        masked_of_fold_url del: if_split cong: if_cong)
  finally show ?thesis .
qed

lemma masked_of_add_value:
  "masked_of (add_value E n i parent d s1) i =
     Some (mask_dom (K E) d
       (case getParentId s1 parent of
          None \<Rightarrow> True
        | Some p \<Rightarrow> (case values s1 p of None \<Rightarrow> True | Some pv \<Rightarrow> masked (v_metadata pv))))"
  by (simp add: add_value_def Let_def masked_of_def split: option.splits)

lemma add_masked:
  assumes "add E n parent d source s = Inr s'"
  shows "\<exists>i s1. getId s n True = (Some i, s1) \<and>
           masked_of s' i =
             Some (mask_dom (K E) d
               (case getParentId s1 parent of
                  None \<Rightarrow> True
                | Some p \<Rightarrow> (case values s p of
                               None \<Rightarrow> True
                             | Some pv \<Rightarrow> masked (v_metadata pv))))"
proof -
  from assms obtain i s1 where g: "getId s n True = (Some i, s1)"
    by (auto simp: add_def split: prod.splits option.splits)
  from assms g obtain s6 s7 where
    u: "updateSelector E i (add_value E n i parent d s1) = Inr s6" and
    m: "metadata E (tag d) i (getParentId s1 parent) s6 = Inr s7" and
    s': "s' = track E i source True s7"
    by (auto simp: add_def split: sum.splits)
  have v: "values s1 = values s" using values_getId[of s n True] g by simp
  have "masked_of s' i = masked_of (add_value E n i parent d s1) i"
    using masked_of_updateSelector[OF u] masked_of_metadata[OF m]
    by (simp add: s' masked_of_track)
  with g v show ?thesis by (simp add: masked_of_add_value cong: option.case_cong)
qed

subsection \<open>The example registries are reached by the operations\<close>

text \<open>
  Each registry written out among the examples is what \<open>add\<close> and \<open>updates\<close> produce,
  step by step, from the empty registry.
\<close>

lemmas example_defs = add_def add_value_def getId_def getParentId_def getNextId_def has_def
  discoverTree_def mask_dom_def updateSelector_def position_def metadata_def track_def
  track_url_def modify_def reset_def E0_def K0_def sel0_def info_def has_key_def
  toUpperCase_def toLowerCase_def upper_char_def lower_char_def upper_letters_def
  lower_letters_def BLACKLIST_NAMES_def BLACKLIST_TYPES_def nv_def updates_def
  List.map_filter_def Let_def fun_eq_iff

lemma s_open_reached:
  "add E0 10 None (info ''DIV'' [(''data-clarity-unmask'', ''true'')]) Discover reset = Inr s_open"
  by (simp add: example_defs s_open_def)

lemma s_tree_reached:
  "add E0 10 None (info ''DIV'' []) Discover reset = Inr s_tree1"
  "add E0 20 (Some 10) (info ''DIV'' []) Discover s_tree1 = Inr s_tree2"
  "add E0 30 (Some 10) (info ''DIV'' []) Discover s_tree2 = Inr s_tree3"
  "add E0 40 (Some 30) (info ''SPAN'' []) Discover s_tree3 = Inr s_tree4"
  "add E0 50 (Some 20) (info ''SPAN'' []) Discover s_tree4 = Inr s_tree5"
  "add E0 60 (Some 30) (info ''SPAN'' []) Discover s_tree5 = Inr s_tree"
  by (simp_all add: example_defs s_tree1_def s_tree2_def s_tree3_def s_tree4_def s_tree5_def
      s_tree_def)

lemma s_child_reached:
  "add E0 10 None (info ''DIV'' [(''id'', ''main'')]) Discover reset = Inr s_main0"
  "updates K0 s_main0 =
     Inr ([nv 1 None [] None ''DIV'' [(''id'', ''main'')] ''DIV#main''], s_main)"
  "add E0 11 (Some 10) (info ''SPAN'' []) Discover s_main = Inr s_child"
  by (simp_all add: example_defs s_main0_def s_main_def s_child_def)

lemma s_pending_reached:
  "add E0 10 None (info ''DIV'' []) Discover reset = Inr s_root0"
  "updates K0 s_root0 = Inr ([nv 1 None [] None ''DIV'' [] ''DIV''], s_root)"
  "add E0 20 (Some 10) (info ''DIV'' []) Discover s_root = Inr s_pending2"
  "add E0 30 (Some 20) (info ''SPAN'' []) Discover s_pending2 = Inr s_pending"
  by (simp_all add: example_defs s_root0_def s_root_def s_tree1_def s_pending2_def s_pending_def)

subsection \<open>Masking\<close>

text \<open>
  C3.  When the attribute map of a node contains the explicit unmask override, the
  masking policy answers \<open>masked = false\<close>, whatever the tag, the other attributes (a
  sensitive type, a denylisted name, the mask override) and the masked state that was
  passed in: the override is tested last.
\<close>

theorem unmask_override_wins:
  "attributes d = Some a \<Longrightarrow> has_key a (UNMASK_ATTRIBUTE C) \<Longrightarrow> mask_dom C d m = False"
  by (simp add: mask_dom_def Let_def)

theorem unmask_override_wins_witness:
  "attributes (info ''INPUT'' [(''type'', ''password''), (''name'', ''phone''),
       (''data-clarity-unmask'', ''true'')]) =
     Some [(''type'', ''password''), (''name'', ''phone''), (''data-clarity-unmask'', ''true'')] \<and>
   has_key [(''type'', ''password''), (''name'', ''phone''), (''data-clarity-unmask'', ''true'')]
     (UNMASK_ATTRIBUTE K0) \<and>
   mask_dom K0 (info ''INPUT'' [(''type'', ''password''), (''name'', ''phone''),
       (''data-clarity-unmask'', ''true'')]) True = False"
proof -
  have a: "attributes (info ''INPUT'' [(''type'', ''password''), (''name'', ''phone''),
       (''data-clarity-unmask'', ''true'')]) =
     Some [(''type'', ''password''), (''name'', ''phone''), (''data-clarity-unmask'', ''true'')]"
    by (simp add: info_def)
  have h: "has_key [(''type'', ''password''), (''name'', ''phone''),
       (''data-clarity-unmask'', ''true'')] (UNMASK_ATTRIBUTE K0)"
    by (simp add: has_key_def K0_def)
  from unmask_override_wins[OF a h, of True] a h show ?thesis by simp
qed

text \<open>
  C10.  When \<open>add\<close> registers a node under the id \<open>i\<close>, the masked flag stored for
  \<open>i\<close> is the masking policy applied to a default: the default is \<open>true\<close> when the
  parent is \<open>null\<close> or has no value in the registry, and it is the parent's masked flag
  when the parent has a value.
\<close>

theorem add_masked_default:
  assumes "add E n parent d source s = Inr s'"
    and "fst (getId s n True) = Some i"
    and "parentId = getParentId (snd (getId s n True)) parent"
  shows "((parentId = None \<or> (\<exists>p. parentId = Some p \<and> values s p = None)) \<longrightarrow>
            masked_of s' i = Some (mask_dom (K E) d True)) \<and>
         (\<forall>p pv. parentId = Some p \<and> values s p = Some pv \<longrightarrow>
            masked_of s' i = Some (mask_dom (K E) d (masked (v_metadata pv))))"
  using add_masked[OF assms(1)] assms(2,3) by auto


theorem add_masked_default_witness:
  "\<not> isl (add E0 11 (Some 10) (info ''SPAN'' []) Discover s_open) \<and>
   masked_of s_open 1 = Some False \<and>
   masked_of (projr (add E0 11 (Some 10) (info ''SPAN'' []) Discover s_open)) 2 = Some False \<and>
   \<not> isl (add E0 11 None (info ''SPAN'' []) Discover s_open) \<and>
   masked_of (projr (add E0 11 None (info ''SPAN'' []) Discover s_open)) 2 = Some True"
proof -
  let ?d = "info ''SPAN'' []"
  have r1: "\<not> isl (add E0 11 (Some 10) ?d Discover s_open)" by code_simp
  then have e1: "add E0 11 (Some 10) ?d Discover s_open =
      Inr (projr (add E0 11 (Some 10) ?d Discover s_open))" by simp
  have r2: "\<not> isl (add E0 11 None ?d Discover s_open)" by code_simp
  then have e2: "add E0 11 None ?d Discover s_open =
      Inr (projr (add E0 11 None ?d Discover s_open))" by simp
  have g: "fst (getId s_open 11 True) = Some 2" by code_simp
  have p1: "getParentId (snd (getId s_open 11 True)) (Some 10) = Some 1" by code_simp
  have p2: "getParentId (snd (getId s_open 11 True)) None = None" by code_simp
  have v: "values s_open 1 = Some (the (values s_open 1))"
  proof -
    have "values s_open 1 \<noteq> None" by code_simp
    then show ?thesis by simp
  qed
  have m: "masked_of s_open 1 = Some False" by code_simp
  have k1: "mask_dom (K E0) ?d (masked (v_metadata (the (values s_open 1)))) = False"
    by code_simp
  have k2: "mask_dom (K E0) ?d True = True" by code_simp
  from add_masked_default[OF e1 g p1[symmetric]] v k1
  have c1: "masked_of (projr (add E0 11 (Some 10) ?d Discover s_open)) 2 = Some False"
    by auto
  from add_masked_default[OF e2 g p2[symmetric]] k2
  have c2: "masked_of (projr (add E0 11 None ?d Discover s_open)) 2 = Some True"
    by auto
  from r1 r2 m c1 c2 show ?thesis by simp
qed

subsection \<open>Flushing the queue\<close>

lemma same_but_paths_refl: "same_but_paths s s"
  by (simp add: same_but_paths_def)

lemma same_but_paths_trans:
  "same_but_paths s s1 \<Longrightarrow> same_but_paths s1 s2 \<Longrightarrow> same_but_paths s s2"
  by (simp add: same_but_paths_def)

lemma same_but_paths_modify:
  "same_but_paths s (modify i (\<lambda>v. v\<lparr>v_data := (v_data v)\<lparr>path := x\<rparr>\<rparr>) s)"
  by (cases "values s i") (simp_all add: same_but_paths_def values_modify without_path_def modify_def)

lemma without_path_fields:
  "without_path v1 = without_path v \<Longrightarrow>
     v_parent v1 = v_parent v \<and> v_selector v1 = v_selector v \<and> has_id C v1 = has_id C v \<and> v_id v1 = v_id v"
  by (cases v, cases v1, cases "v_data v", cases "v_data v1") (auto simp: without_path_def has_id_def)

lemma same_but_paths_value:
  assumes "same_but_paths s s1" "values s j = Some v"
  obtains v1 where "values s1 j = Some v1" "without_path v1 = without_path v"
proof -
  from assms have "map_option without_path (values s1 j) = Some (without_path v)"
    by (simp add: same_but_paths_def)
  then show ?thesis using that by (cases "values s1 j") auto
qed

lemma loop_path_same:
  assumes "same_but_paths s s1" "without_path v1 = without_path v"
  shows "loop_path C s1 v1 = loop_path C s v"
proof -
  have u: "updateMap s1 = updateMap s" using assms(1) by (simp add: same_but_paths_def)
  have sel: "map_option v_selector (values s1 q) = map_option v_selector (values s q)" for q
  proof (cases "values s q")
    case None
    with assms(1) have "map_option without_path (values s1 q) = None" by (simp add: same_but_paths_def)
    with None show ?thesis by simp
  next
    case (Some pv)
    from same_but_paths_value[OF assms(1) Some] obtain pv1 where
      "values s1 q = Some pv1" "without_path pv1 = without_path pv" by blast
    with Some without_path_fields[of pv1 pv C] show ?thesis by simp
  qed
  from without_path_fields[OF assms(2), of C] u sel show ?thesis
    by (simp add: loop_path_def split: option.splits)
qed

lemma updates_loop_step:
  assumes "values s i = Some v"
    and "updates_loop C (i # ids) out s = Inr r"
  shows "updates_loop C ids (out @ [i])
           (modify i (\<lambda>w. w\<lparr>v_data := (v_data w)\<lparr>path := loop_path C s v\<rparr>\<rparr>) s) = Inr r"
  using assms
  by (auto simp: loop_path_def has_id_def Let_def split: option.splits if_splits)

lemma updates_loop_props:
  "updates_loop C ids out s = Inr (out', s') \<Longrightarrow>
     same_but_paths s s' \<and>
     out' = out @ filter (\<lambda>i. values s i \<noteq> None) ids \<and>
     (\<forall>j. j \<notin> set ids \<longrightarrow> values s' j = values s j) \<and>
     (\<forall>j v. j \<in> set ids \<longrightarrow> values s j = Some v \<longrightarrow> path_of s' j = Some (loop_path C s v))"
proof (induction ids arbitrary: out s)
  case Nil
  then show ?case by (simp add: same_but_paths_refl)
next
  case (Cons i ids)
  show ?case
  proof (cases "values s i")
    case None
    with Cons.prems have "updates_loop C ids out s = Inr (out', s')" by simp
    from Cons.IH[OF this] None show ?thesis by auto
  next
    case (Some v)
    let ?s1 = "modify i (\<lambda>w. w\<lparr>v_data := (v_data w)\<lparr>path := loop_path C s v\<rparr>\<rparr>) s"
    from updates_loop_step[OF Some Cons.prems]
    have run: "updates_loop C ids (out @ [i]) ?s1 = Inr (out', s')" .
    note ih = Cons.IH[OF run]
    have sb: "same_but_paths s ?s1" by (rule same_but_paths_modify)
    have p1: "same_but_paths s s'" using sb ih same_but_paths_trans by blast
    have flt: "filter (\<lambda>j. values ?s1 j \<noteq> None) ids = filter (\<lambda>j. values s j \<noteq> None) ids"
      by (rule filter_cong) (auto simp: values_modify Some)
    from ih have "out' = (out @ [i]) @ filter (\<lambda>j. values ?s1 j \<noteq> None) ids" by blast
    then have p2: "out' = out @ filter (\<lambda>i. values s i \<noteq> None) (i # ids)"
      unfolding flt using Some by simp
    have p3: "\<forall>j. j \<notin> set (i # ids) \<longrightarrow> values s' j = values s j"
      using ih by (simp add: values_modify)
    have p4: "path_of s' j = Some (loop_path C s w)"
      if j: "j \<in> set (i # ids)" and w: "values s j = Some w" for j w
    proof (cases "j \<in> set ids")
      case True
      from same_but_paths_value[OF sb w] obtain w1 where
        w1: "values ?s1 j = Some w1" "without_path w1 = without_path w" by blast
      from ih True w1 have "path_of s' j = Some (loop_path C ?s1 w1)" by blast
      with loop_path_same[OF sb w1(2)] show ?thesis by simp
    next
      case False
      with j have ji: "j = i" by simp
      with False ih have "values s' i = values ?s1 i" by blast
      with ji w Some show ?thesis by (simp add: path_of_def values_modify)
    qed
    from p1 p2 p3 p4 show ?thesis by blast
  qed
qed

lemma updates_loop_parent:
  "updates_loop C ids out s = Inr (out', s') \<Longrightarrow> j \<in> set ids \<Longrightarrow> values s j = Some v \<Longrightarrow>
   v_parent v = Some q \<Longrightarrow> \<not> q < length (updateMap s) \<Longrightarrow> \<not> has_id C v \<Longrightarrow>
   v_selector v \<noteq> [] \<Longrightarrow> values s q \<noteq> None"
proof (induction ids arbitrary: out s v)
  case Nil
  then show ?case by simp
next
  case (Cons i ids)
  show ?case
  proof (cases "values s i")
    case None
    with Cons.prems have "updates_loop C ids out s = Inr (out', s')" "j \<in> set ids" by auto
    from Cons.IH[OF this Cons.prems(3-7)] show ?thesis .
  next
    case (Some w)
    let ?s1 = "modify i (\<lambda>u. u\<lparr>v_data := (v_data u)\<lparr>path := loop_path C s w\<rparr>\<rparr>) s"
    from updates_loop_step[OF Some Cons.prems(1)]
    have run: "updates_loop C ids (out @ [i]) ?s1 = Inr (out', s')" .
    have sb: "same_but_paths s ?s1" by (rule same_but_paths_modify)
    show ?thesis
    proof (cases "j = i")
      case True
      with Some Cons.prems(3) have "w = v" by simp
      with Some Cons.prems(1,4-7) show ?thesis
        by (auto simp: has_id_def Let_def split: option.splits if_splits)
    next
      case False
      with Cons.prems(2) have jin: "j \<in> set ids" by simp
      from same_but_paths_value[OF sb Cons.prems(3)] obtain v1 where
        v1: "values ?s1 j = Some v1" "without_path v1 = without_path v" by blast
      from without_path_fields[OF v1(2), of C] Cons.prems(4-7) sb
      have "v_parent v1 = Some q" "\<not> q < length (updateMap ?s1)" "\<not> has_id C v1"
        "v_selector v1 \<noteq> []"
        by (simp_all add: same_but_paths_def)
      from Cons.IH[OF run jin v1(1) this] show ?thesis by (simp add: values_modify split: if_splits)
    qed
  qed
qed

lemma updates_props:
  assumes "updates C s = Inr (out, s')"
  shows "updateMap s' = []"
    and "\<And>j. map_option without_path (values s' j) = map_option without_path (values s j)"
    and "out = List.map_filter (values s') (filter (\<lambda>i. values s i \<noteq> None) (updateMap s))"
    and "\<And>j v. j \<in> set (updateMap s) \<Longrightarrow> values s j = Some v \<Longrightarrow>
           path_of s' j = Some (loop_path C s v)"
    and "\<And>j v q. j \<in> set (updateMap s) \<Longrightarrow> values s j = Some v \<Longrightarrow> v_parent v = Some q \<Longrightarrow>
           \<not> q < length (updateMap s) \<Longrightarrow> \<not> has_id C v \<Longrightarrow> v_selector v \<noteq> [] \<Longrightarrow>
           values s q \<noteq> None"
proof -
  from assms obtain ids s1 where
    l: "updates_loop C (updateMap s) [] s = Inr (ids, s1)" and
    o: "out = List.map_filter (values s1) ids" and s': "s' = s1\<lparr>updateMap := []\<rparr>"
    by (auto simp: updates_def split: sum.splits prod.splits)
  note p = updates_loop_props[OF l]
  show "updateMap s' = []" by (simp add: s')
  show "map_option without_path (values s' j) = map_option without_path (values s j)" for j
    using p by (simp add: s' same_but_paths_def)
  show "out = List.map_filter (values s') (filter (\<lambda>i. values s i \<noteq> None) (updateMap s))"
    using p o by (simp add: s')
  show "path_of s' j = Some (loop_path C s v)"
    if "j \<in> set (updateMap s)" "values s j = Some v" for j v
    using p that by (simp add: s' path_of_def)
  show "values s q \<noteq> None"
    if "j \<in> set (updateMap s)" "values s j = Some v" "v_parent v = Some q"
      "\<not> q < length (updateMap s)" "\<not> has_id C v" "v_selector v \<noteq> []" for j v q
    using updates_loop_parent[OF l that] .
qed

text \<open>
  C6.  A flush that returns leaves the queue empty, and a second flush right after it
  returns no record and changes nothing.
\<close>

theorem flush_twice:
  assumes "updates C s = Inr (out, s')"
  shows "updateMap s' = [] \<and> updates C s' = Inr ([], s')"
proof -
  have u: "updateMap s' = []" by (rule updates_props(1)[OF assms])
  then have "s'\<lparr>updateMap := []\<rparr> = s'" by simp
  with u show ?thesis by (simp add: updates_def List.map_filter_simps)
qed

theorem flush_twice_witness:
  "\<not> isl (updates K0 s_child) \<and> updateMap s_child = [2] \<and>
   updateMap (snd (projr (updates K0 s_child))) = [] \<and>
   flushed_paths K0 (snd (projr (updates K0 s_child))) = Inr []"
proof -
  have r: "\<not> isl (updates K0 s_child)" by code_simp
  then have e: "updates K0 s_child =
      Inr (fst (projr (updates K0 s_child)), snd (projr (updates K0 s_child)))" by simp
  have q: "updateMap s_child = [2]" by code_simp
  from flush_twice[OF e] r q show ?thesis by (simp add: flushed_paths_def)
qed

text \<open>
  C2, as the code has it.  The claim puts the id attribute on the ancestor; the loop
  tests the drained record's own attributes (\<open>hasId\<close> is computed from \<open>v.data\<close>), and
  it also blanks the path of a record whose selector is empty.  In \<open>s_child\<close> the
  pending record 2 has the parent 1, which is not pending and carries the id attribute:
  the claim makes the path \<open>null\<close>, the flush makes it the parent's selector.
\<close>

theorem flush_path_counterexample:
  "flushed_paths K0 s_child = Inr [(2, Some ''DIV#main'')] \<and>
   map_option (spec_path K0 s_child) (values s_child 2) = Some None"
  by code_simp

text \<open>
  C2 amended.  Every registered id of the queue is drained: its record is returned, and
  it is the stored value with nothing but the path changed.  The path is \<open>null\<close> when
  the record has no parent, when the record itself carries the id attribute, or when its
  selector is empty.  Otherwise it is \<open>null\<close> when the parent is pending in this flush
  and the parent's id is below the length of the queue, and it is the parent's selector
  when the parent is not pending and the parent's id is not below the length of the
  queue.  (The code decides between the last two by \<open>p in updateMap\<close>, which looks at
  the indices of the queue; the statement covers the cases in which that test and
  membership in the queue agree.)
\<close>

theorem flush_path:
  assumes "updates C s = Inr (out, s')" and "i \<in> set (updateMap s)" and "values s i = Some v"
  shows "\<exists>v'. values s' i = Some v' \<and> v' \<in> set out \<and> without_path v' = without_path v \<and>
     (v_parent v = None \<or> has_id C v \<or> v_selector v = [] \<longrightarrow> path (v_data v') = None) \<and>
     (\<forall>q. v_parent v = Some q \<and> \<not> has_id C v \<and> v_selector v \<noteq> [] \<longrightarrow>
          (q \<in> set (updateMap s) \<and> q < length (updateMap s) \<longrightarrow> path (v_data v') = None) \<and>
          (q \<notin> set (updateMap s) \<and> \<not> q < length (updateMap s) \<longrightarrow>
             (\<exists>pv. values s q = Some pv \<and> path (v_data v') = Some (v_selector pv))))"
proof -
  note p = updates_props[OF assms(1)]
  from p(2)[of i] assms(3) obtain v' where
    v': "values s' i = Some v'" "without_path v' = without_path v"
    by (cases "values s' i") auto
  from p(4)[OF assms(2,3)] v' have pth: "path (v_data v') = loop_path C s v"
    by (simp add: path_of_def)
  have mem: "v' \<in> set out"
    unfolding p(3) using assms(2,3) v'(1)
    by (auto simp: List.map_filter_def intro!: image_eqI[where x=i])
  have a: "path (v_data v') = None" if "v_parent v = None \<or> has_id C v \<or> v_selector v = []"
    using that pth by (auto simp: loop_path_def split: option.splits)
  have b: "path (v_data v') = None"
    if "v_parent v = Some q" "q < length (updateMap s)" for q
    using that pth by (simp add: loop_path_def)
  have c: "\<exists>pv. values s q = Some pv \<and> path (v_data v') = Some (v_selector pv)"
    if "v_parent v = Some q" "\<not> has_id C v" "v_selector v \<noteq> []" "\<not> q < length (updateMap s)" for q
  proof -
    from p(5)[OF assms(2,3) that(1,4,2,3)] obtain pv where "values s q = Some pv" by auto
    with that pth show ?thesis by (simp add: loop_path_def)
  qed
  from v' mem a b c show ?thesis by blast
qed

theorem flush_path_witness:
  "\<not> isl (updates K0 s_child) \<and> 2 \<in> set (updateMap s_child) \<and>
   map_option v_parent (values s_child 2) = Some (Some 1) \<and>
   map_option v_selector (values s_child 1) = Some ''DIV#main'' \<and>
   path_of (snd (projr (updates K0 s_child))) 2 = Some (Some ''DIV#main'')"
proof -
  let ?v = "the (values s_child 2)"
  have r: "\<not> isl (updates K0 s_child)" by code_simp
  then have e: "updates K0 s_child =
      Inr (fst (projr (updates K0 s_child)), snd (projr (updates K0 s_child)))" by simp
  have i: "2 \<in> set (updateMap s_child)" by code_simp
  have v: "values s_child 2 = Some ?v"
  proof -
    have "values s_child 2 \<noteq> None" by code_simp
    then show ?thesis by simp
  qed
  have f1: "v_parent ?v = Some 1" by code_simp
  have f2: "\<not> has_id K0 ?v" by code_simp
  have f3: "v_selector ?v \<noteq> []" by code_simp
  have f4: "1 \<notin> set (updateMap s_child)" by code_simp
  have f5: "\<not> 1 < length (updateMap s_child)" by code_simp
  have f6: "map_option v_selector (values s_child 1) = Some ''DIV#main''" by code_simp
  have f7: "map_option v_parent (values s_child 2) = Some (Some 1)" by code_simp
  from flush_path[OF e i v] obtain v' where
    v': "values (snd (projr (updates K0 s_child))) 2 = Some v'" and
    c: "\<forall>q. v_parent ?v = Some q \<and> \<not> has_id K0 ?v \<and> v_selector ?v \<noteq> [] \<longrightarrow>
          (q \<in> set (updateMap s_child) \<and> q < length (updateMap s_child) \<longrightarrow>
             path (v_data v') = None) \<and>
          (q \<notin> set (updateMap s_child) \<and> \<not> q < length (updateMap s_child) \<longrightarrow>
             (\<exists>pv. values s_child q = Some pv \<and> path (v_data v') = Some (v_selector pv)))"
    by blast
  from c f1 f2 f3 f4 f5 obtain pv where
    "values s_child 1 = Some pv" "path (v_data v') = Some (v_selector pv)" by blast
  with f6 have "path (v_data v') = Some ''DIV#main''" by simp
  with v' have "path_of (snd (projr (updates K0 s_child))) 2 = Some (Some ''DIV#main'')"
    by (simp add: path_of_def)
  with r i f6 f7 show ?thesis by simp
qed

text \<open>
  The test \<open>p in updateMap\<close> of the flush looks at the indices of the queue.  In
  \<open>s_pending\<close> the queue is \<open>[2, 3]\<close>.  The parent of the record 2 is the id 1, which
  is not pending but is an index of the queue: the path is \<open>null\<close>.  The parent of the
  record 3 is the id 2, which is pending but is not an index of the queue: the path is
  the selector of the parent.
\<close>

lemma flush_pending_test_by_index:
  "updateMap s_pending = [2, 3] \<and>
   flushed_paths K0 s_pending = Inr [(2, None), (3, Some ''DIV>DIV'')]"
  by code_simp

subsection \<open>Moving a node to another parent\<close>

text \<open>
  C1.  In \<open>s_tree\<close> the node \<open>A\<close> (id 5) is a child of \<open>P1\<close> (id 2), and the child list
  of \<open>P2\<close> (id 3) is \<open>[4, 6]\<close>, with \<open>S\<close> (id 4) at position 0.  \<open>A\<close> is observed again
  by \<open>update\<close> with the parent \<open>P2\<close> and the next sibling \<open>S\<close>.  The claim puts \<open>A\<close> at
  position 1 of the child list of \<open>P2\<close>.  The code leaves the child list of \<open>P1\<close>
  empty and splices \<open>A\<close> in at the index \<open>nextId + 1 = 5\<close>, the id of \<open>S\<close> plus one,
  which is beyond the end of the list: \<open>A\<close> lands at position 2, behind both \<open>S\<close> and
  \<open>X\<close>.
\<close>

theorem update_moves_to_id_plus_one:
  "children_of s_tree 2 = Some [5] \<and> children_of s_tree 3 = Some [4, 6] \<and>
   getNextId E_moved s_tree 50 = Some 4 \<and>
   children_after (update 1 E_moved 50 (Some 30) (info ''SPAN'' []) ChildListAdd s_tree) 2 3 =
     Some (Some [], Some [4, 6, 5])"
  by code_simp

subsection \<open>Removing a subtree\<close>

lemma depth_ok_mono:
  assumes "\<And>d. (vs' d = None) = (vs d = None)"
    and "\<And>d v v'. vs d = Some v \<Longrightarrow> vs' d = Some v' \<Longrightarrow>
           v_children v' = v_children v \<or> v_children v' = []"
  shows "depth_ok n vs i \<Longrightarrow> depth_ok n vs' i"
proof (induction n arbitrary: i)
  case 0
  then show ?case by simp
next
  case (Suc n)
  from Suc.prems obtain v where v: "vs i = Some v" and
    cs: "list_all (depth_ok n vs) (v_children v)"
    by (auto split: option.splits)
  from assms(1)[of i] v obtain v' where v': "vs' i = Some v'" by (cases "vs' i") auto
  from assms(2)[OF v v'] cs Suc.IH have "list_all (depth_ok n vs') (v_children v')"
    by (auto simp: list_all_iff)
  with v' show ?case by simp
qed

lemma reach_self: "i \<in> reach s i"
  by (simp add: reach_def)

lemma reach_step:
  "values s i = Some v \<Longrightarrow> reach s i = insert i (\<Union>c \<in> set (v_children v). reach s c)"
proof (intro set_eqI iffI)
  fix d assume "d \<in> reach s i"
  then have "(i, d) \<in> (child_rel (values s))\<^sup>*" by (simp add: reach_def)
  then show "d \<in> insert i (\<Union>c \<in> set (v_children v). reach s c)" if "values s i = Some v"
    using that by (cases rule: converse_rtranclE) (auto simp: reach_def child_rel_def)
next
  fix d assume v: "values s i = Some v" and "d \<in> insert i (\<Union>c \<in> set (v_children v). reach s c)"
  then consider "d = i" | c where "c \<in> set (v_children v)" "(c, d) \<in> (child_rel (values s))\<^sup>*"
    by (auto simp: reach_def)
  then show "d \<in> reach s i"
  proof cases
    case 1
    then show ?thesis by (simp add: reach_def)
  next
    case 2
    with v have "(i, c) \<in> child_rel (values s)" by (auto simp: child_rel_def)
    with 2 show ?thesis by (auto simp: reach_def intro: converse_rtrancl_into_rtrancl)
  qed
qed

lemma reach_registered:
  "depth_ok n (values s) i \<Longrightarrow> d \<in> reach s i \<Longrightarrow> values s d \<noteq> None"
proof (induction n arbitrary: i)
  case 0
  then show ?case by simp
next
  case (Suc n)
  from Suc.prems(1) obtain v where v: "values s i = Some v" and
    cs: "list_all (depth_ok n (values s)) (v_children v)"
    by (auto split: option.splits)
  from Suc.prems(2) reach_step[OF v] consider "d = i" | c where "c \<in> set (v_children v)" "d \<in> reach s c"
    by auto
  then show ?case
  proof cases
    case 1
    with v show ?thesis by simp
  next
    case 2
    with cs have "depth_ok n (values s) c" by (simp add: list_all_iff)
    from Suc.IH[OF this 2(2)] show ?thesis .
  qed
qed

lemma subtree_reach: "set (subtree n (values s) i) \<subseteq> reach s i"
proof (induction n arbitrary: i)
  case 0
  then show ?case by simp
next
  case (Suc n)
  show ?case
  proof (cases "values s i")
    case None
    then show ?thesis by simp
  next
    case (Some v)
    with Suc.IH reach_step[OF Some] show ?thesis by auto
  qed
qed

lemma deactivated_registered: "deactivated s d \<Longrightarrow> values s d \<noteq> None"
  by (auto simp: deactivated_def split: option.splits)

lemma frame_in: "remove_frame s s' T \<Longrightarrow> d \<in> T \<Longrightarrow> deactivated s' d"
  by (simp add: remove_frame_def)

lemma frame_out: "remove_frame s s' T \<Longrightarrow> d \<notin> T \<Longrightarrow> values s' d = values s d"
  by (simp add: remove_frame_def)

lemma frame_history: "remove_frame s s' T \<Longrightarrow> prefix (history s j) (history s' j)"
  by (simp add: remove_frame_def)

lemma frame_fields:
  "remove_frame s s' T \<Longrightarrow> index s' = index s \<and> idMap s' = idMap s \<and> nodes s' = nodes s"
  by (simp add: remove_frame_def)

lemma frameI:
  "(\<And>d. d \<in> T \<Longrightarrow> deactivated s' d) \<Longrightarrow> (\<And>d. d \<notin> T \<Longrightarrow> values s' d = values s d) \<Longrightarrow>
   (\<And>j. prefix (history s j) (history s' j)) \<Longrightarrow>
   index s' = index s \<Longrightarrow> idMap s' = idMap s \<Longrightarrow> nodes s' = nodes s \<Longrightarrow>
   remove_frame s s' T"
  by (simp add: remove_frame_def)

text \<open>Edges only disappear, and only at deactivated nodes.\<close>

lemma frame_child_rel:
  assumes "remove_frame s s1 T"
  shows "child_rel (values s1) \<subseteq> child_rel (values s)"
proof
  fix e assume "e \<in> child_rel (values s1)"
  then obtain a b v where e: "e = (a, b)" and v: "values s1 a = Some v" "b \<in> set (v_children v)"
    by (auto simp: child_rel_def)
  have "a \<notin> T"
  proof
    assume "a \<in> T"
    with assms have "deactivated s1 a" by (simp add: remove_frame_def)
    with v show False by (simp add: deactivated_def)
  qed
  with assms have "values s1 a = values s a" by (simp add: remove_frame_def)
  with e v show "e \<in> child_rel (values s)" by (auto simp: child_rel_def)
qed

lemma frame_reach_subset:
  assumes "remove_frame s s1 T"
  shows "reach s1 c \<subseteq> reach s c"
  using rtrancl_mono[OF frame_child_rel[OF assms]] by (auto simp: reach_def)

lemma frame_reach_split:
  assumes f: "remove_frame s s1 (reach s c)" and d: "d \<in> reach s c'"
  shows "d \<in> reach s1 c' \<or> d \<in> reach s c"
proof -
  from d have "(c', d) \<in> (child_rel (values s))\<^sup>*" by (simp add: reach_def)
  then show ?thesis
  proof (induction rule: rtrancl_induct)
    case base
    then show ?case by (simp add: reach_def)
  next
    case (step y z)
    show ?case
    proof (cases "y \<in> reach s c")
      case True
      with step.hyps(2) have "z \<in> reach s c"
        by (auto simp: reach_def intro: rtrancl_into_rtrancl)
      then show ?thesis by simp
    next
      case False
      with step.IH have y: "y \<in> reach s1 c'" by simp
      from False f have "values s1 y = values s y" by (simp add: remove_frame_def)
      with step.hyps(2) have "(y, z) \<in> child_rel (values s1)" by (simp add: child_rel_def)
      with y have "z \<in> reach s1 c'" by (auto simp: reach_def intro: rtrancl_into_rtrancl)
      then show ?thesis by simp
    qed
  qed
qed

lemma history_modify: "history (modify i f s) j = history s j"
  by (simp add: history_def modify_def)

lemma history_track: "prefix (history s j) (history (track E i source changed s) j)"
  by (simp add: history_def track_def Let_def split: option.splits)

lemma fields_modify:
  "index (modify i f s) = index s" "idMap (modify i f s) = idMap s"
  "nodes (modify i f s) = nodes s"
  by (simp_all add: modify_def)

lemma fields_track:
  "index (track E i source changed s) = index s"
  "idMap (track E i source changed s) = idMap s"
  "nodes (track E i source changed s) = nodes s"
  by (simp_all add: track_def Let_def)

lemma deactivated_cong: "values s' d = values s d \<Longrightarrow> deactivated s' d = deactivated s d"
  by (simp add: deactivated_def)

lemma frame_depth_ok:
  assumes f: "remove_frame s s1 (reach s c)" and c: "depth_ok m (values s) c"
    and k: "depth_ok n (values s) k"
  shows "depth_ok n (values s1) k"
proof (rule depth_ok_mono[OF _ _ k])
  fix d
  show "(values s1 d = None) = (values s d = None)"
  proof (cases "d \<in> reach s c")
    case True
    from frame_in[OF f True] have "values s1 d \<noteq> None" by (rule deactivated_registered)
    with reach_registered[OF c True] show ?thesis by auto
  next
    case False
    from frame_out[OF f False] show ?thesis by simp
  qed
next
  fix d v v' assume "values s d = Some v" "values s1 d = Some v'"
  then show "v_children v' = v_children v \<or> v_children v' = []"
    using frame_in[OF f, of d] frame_out[OF f, of d]
    by (cases "d \<in> reach s c") (auto simp: deactivated_def)
qed

lemma remove_each_frame:
  assumes P: "\<And>i s. depth_ok n (values s) i \<Longrightarrow>
                \<exists>s'. remove n E i source s = Some (Inr s') \<and> remove_frame s s' (reach s i)"
  shows "list_all (depth_ok n (values s)) cs \<Longrightarrow>
           \<exists>s'. remove_each n E cs source s = Some (Inr s') \<and>
                remove_frame s s' (\<Union>c \<in> set cs. reach s c)"
proof (induction cs arbitrary: s)
  case Nil
  then show ?case by (simp add: remove_frame_def)
next
  case (Cons c cs)
  from Cons.prems have c: "depth_ok n (values s) c" and
    cs: "list_all (depth_ok n (values s)) cs" by simp_all
  from P[OF c] obtain s1 where
    r1: "remove n E c source s = Some (Inr s1)" and f1: "remove_frame s s1 (reach s c)"
    by blast
  from cs have "list_all (depth_ok n (values s1)) cs"
    by (auto simp: list_all_iff intro: frame_depth_ok[OF f1 c])
  from Cons.IH[OF this] obtain s' where
    r2: "remove_each n E cs source s1 = Some (Inr s')" and
    f2: "remove_frame s1 s' (\<Union>c' \<in> set cs. reach s1 c')"
    by blast
  have run: "remove_each n E (c # cs) source s = Some (Inr s')"
    using r1 r2 by simp
  have a1: "deactivated s' d" if "d \<in> reach s c" for d
  proof (cases "d \<in> (\<Union>c' \<in> set cs. reach s1 c')")
    case True
    then show ?thesis by (rule frame_in[OF f2])
  next
    case False
    from frame_out[OF f2 False] frame_in[OF f1 that] show ?thesis by (simp add: deactivated_def)
  qed
  have a2: "deactivated s' d" if "c' \<in> set cs" "d \<in> reach s c'" for d c'
  proof -
    from frame_reach_split[OF f1 that(2)] show ?thesis
    proof
      assume "d \<in> reach s1 c'"
      with that(1) have "d \<in> (\<Union>c' \<in> set cs. reach s1 c')" by blast
      then show ?thesis by (rule frame_in[OF f2])
    next
      assume "d \<in> reach s c"
      then show ?thesis by (rule a1)
    qed
  qed
  have b: "values s' d = values s d" if "d \<notin> reach s c" "\<forall>c' \<in> set cs. d \<notin> reach s c'" for d
  proof -
    from that(2) frame_reach_subset[OF f1] have "d \<notin> (\<Union>c' \<in> set cs. reach s1 c')" by auto
    from frame_out[OF f2 this] frame_out[OF f1 that(1)] show ?thesis by simp
  qed
  have h: "prefix (history s j) (history s' j)" for j
    using frame_history[OF f1, of j] frame_history[OF f2, of j] by (rule prefix_order.trans)
  have "remove_frame s s' (\<Union>c' \<in> set (c # cs). reach s c')"
  proof (rule frameI)
    fix d assume "d \<in> (\<Union>c' \<in> set (c # cs). reach s c')"
    then show "deactivated s' d" using a1 a2 by auto
  next
    fix d assume "d \<notin> (\<Union>c' \<in> set (c # cs). reach s c')"
    then show "values s' d = values s d" using b by auto
  qed (use h frame_fields[OF f1] frame_fields[OF f2] in simp_all)
  with run show ?case by blast
qed

lemma remove_step_frame:
  assumes Q: "\<And>cs s. list_all (depth_ok n (values s)) cs \<Longrightarrow>
                \<exists>s'. remove_each n E cs source s = Some (Inr s') \<and>
                     remove_frame s s' (\<Union>c \<in> set cs. reach s c)"
    and d: "depth_ok (Suc n) (values s) i"
  shows "\<exists>s'. remove (Suc n) E i source s = Some (Inr s') \<and> remove_frame s s' (reach s i)"
proof -
  from d obtain v where v: "values s i = Some v" and
    cs: "list_all (depth_ok n (values s)) (v_children v)"
    by (auto split: option.splits)
  define s3 where "s3 = track E i source True
      (modify i (\<lambda>v. v\<lparr>v_parent := None\<rparr>)
        (modify i (\<lambda>v. v\<lparr>v_metadata := (v_metadata v)\<lparr>active := False\<rparr>\<rparr>) s))"
  define v3 where "v3 = v\<lparr>v_metadata := (v_metadata v)\<lparr>active := False\<rparr>, v_parent := None\<rparr>"
  have vs3: "values s3 = (values s)(i \<mapsto> v3)"
    using v by (auto simp: s3_def v3_def values_track values_modify)
  have rel: "child_rel (values s3) = child_rel (values s)"
    using v by (auto simp: vs3 child_rel_def v3_def split: if_splits)
  then have rch: "reach s3 c = reach s c" for c by (simp add: reach_def)
  have "depth_ok n (values s3) c" if "depth_ok n (values s) c" for c
    by (rule depth_ok_mono[OF _ _ that]) (use v in \<open>auto simp: vs3 v3_def split: if_splits\<close>)
  with cs have "list_all (depth_ok n (values s3)) (v_children v)" by (simp add: list_all_iff)
  from Q[OF this] obtain s4 where
    r: "remove_each n E (v_children v) source s3 = Some (Inr s4)" and
    f: "remove_frame s3 s4 (\<Union>c \<in> set (v_children v). reach s c)"
    by (auto simp: rch)
  let ?s' = "modify i (\<lambda>v. v\<lparr>v_children := []\<rparr>) s4"
  have run: "remove (Suc n) E i source s = Some (Inr ?s')"
    using v r by (simp add: s3_def Let_def)
  have i4: "\<exists>w. values s4 i = Some w \<and> \<not> active (v_metadata w)"
  proof (cases "i \<in> (\<Union>c \<in> set (v_children v). reach s c)")
    case True
    from frame_in[OF f True] show ?thesis by (auto simp: deactivated_def split: option.splits)
  next
    case False
    from frame_out[OF f False] show ?thesis by (simp add: vs3 v3_def)
  qed
  have a: "deactivated ?s' d" if "d \<in> reach s i" for d
  proof (cases "d = i")
    case True
    with i4 show ?thesis by (auto simp: deactivated_def values_modify)
  next
    case False
    with that reach_step[OF v] have "d \<in> (\<Union>c \<in> set (v_children v). reach s c)" by auto
    from frame_in[OF f this] False show ?thesis by (simp add: deactivated_def values_modify)
  qed
  have b: "values ?s' d = values s d" if "d \<notin> reach s i" for d
  proof -
    from that reach_step[OF v] have ne: "d \<noteq> i" and
      nu: "d \<notin> (\<Union>c \<in> set (v_children v). reach s c)"
      by auto
    from frame_out[OF f nu] ne show ?thesis by (simp add: values_modify vs3)
  qed
  have h: "prefix (history s j) (history ?s' j)" for j
  proof -
    have "prefix (history s j) (history s3 j)"
      using history_track[of "modify i (\<lambda>v. v\<lparr>v_parent := None\<rparr>)
        (modify i (\<lambda>v. v\<lparr>v_metadata := (v_metadata v)\<lparr>active := False\<rparr>\<rparr>) s)" j E i source True]
      by (simp add: s3_def history_modify)
    moreover have "prefix (history s3 j) (history s4 j)" by (rule frame_history[OF f])
    ultimately show ?thesis by (simp add: history_modify)
  qed
  have o: "index ?s' = index s" "idMap ?s' = idMap s" "nodes ?s' = nodes s"
    using frame_fields[OF f] by (simp_all add: fields_modify fields_track s3_def)
  have "remove_frame s ?s' (reach s i)"
    by (rule frameI) (use a b h o in auto)
  with run show ?thesis by blast
qed

lemma remove_frame_holds:
  "depth_ok n (values s) i \<Longrightarrow>
     \<exists>s'. remove n E i source s = Some (Inr s') \<and> remove_frame s s' (reach s i)"
proof (induction n arbitrary: s i)
  case 0
  then show ?case by simp
next
  case (Suc n)
  show ?case
    by (rule remove_step_frame[OF remove_each_frame[OF Suc.IH] Suc.prems])
qed

lemma subtree_complete:
  "depth_ok n (values s) i \<Longrightarrow> reach s i \<subseteq> set (subtree n (values s) i)"
proof (induction n arbitrary: i)
  case 0
  then show ?case by simp
next
  case (Suc n)
  from Suc.prems obtain v where v: "values s i = Some v" and
    cs: "list_all (depth_ok n (values s)) (v_children v)"
    by (auto split: option.splits)
  from cs Suc.IH have "reach s c \<subseteq> set (subtree n (values s) c)" if "c \<in> set (v_children v)" for c
    using that by (simp add: list_all_iff)
  with reach_step[OF v] v show ?case by auto
qed

text \<open>
  C7.  When the child lists under a registered id form a tree of registered ids (of
  depth below the bound on the recursion), \<open>remove\<close> returns, and afterwards the id and
  every id of its subtree is inactive with an empty child list.  The history of every id
  is still there, with its old entries as a prefix; every id that had a value has one;
  the id counter and the map from nodes to ids are as before, so that no id is handed
  out again.
\<close>

theorem remove_deactivates_subtree:
  assumes "depth_ok n (values s) i"
  shows "\<exists>s'. remove n E i source s = Some (Inr s') \<and>
           list_all (deactivated s') (subtree n (values s) i) \<and>
           (\<forall>j. prefix (history s j) (history s' j)) \<and>
           (\<forall>j. (values s' j = None) = (values s j = None)) \<and>
           index s' = index s \<and> idMap s' = idMap s"
proof -
  from remove_frame_holds[OF assms] obtain s' where
    r: "remove n E i source s = Some (Inr s')" and f: "remove_frame s s' (reach s i)"
    by blast
  have a: "list_all (deactivated s') (subtree n (values s) i)"
    using frame_in[OF f] subtree_reach[of n s i] by (auto simp: list_all_iff)
  have d: "(values s' j = None) = (values s j = None)" for j
  proof (cases "j \<in> reach s i")
    case True
    from frame_in[OF f True] have "values s' j \<noteq> None" by (rule deactivated_registered)
    with reach_registered[OF assms True] show ?thesis by auto
  next
    case False
    from frame_out[OF f False] show ?thesis by simp
  qed
  from r a d frame_history[OF f] frame_fields[OF f] show ?thesis by blast
qed

theorem remove_deactivates_subtree_witness:
  "depth_ok 3 (values s_tree) 1 \<and> subtree 3 (values s_tree) 1 = [1, 2, 5, 3, 4, 6] \<and>
   (\<exists>s'. remove 3 E0 1 ChildListRemove s_tree = Some (Inr s') \<and>
         deactivated s' 1 \<and> deactivated s' 2 \<and> deactivated s' 5 \<and>
         deactivated s' 3 \<and> deactivated s' 4 \<and> deactivated s' 6 \<and> index s' = 7)"
proof -
  have d: "depth_ok 3 (values s_tree) 1" by code_simp
  have t: "subtree 3 (values s_tree) 1 = [1, 2, 5, 3, 4, 6]" by code_simp
  have i: "index s_tree = 7" by code_simp
  from remove_deactivates_subtree[OF d, of E0 ChildListRemove] t i d show ?thesis
    by auto
qed

section \<open>Properties of the reconstructor\<close>











lemma id_table_alloc: "id_table (snd (alloc x st)) = id_table st"
  by (simp add: alloc_def)




lemma createElement_id_table:
  "createElement t st = Inr (r, st1) \<Longrightarrow> id_table st1 = id_table st"
  by (auto simp: createElement_def doc_createElement_def doc_createElementNS_def alloc_def
      split: if_splits)







lemma element_of_registered:
  "0 < i \<Longrightarrow> has_key (id_table st) i \<Longrightarrow> element_of st (Some i) \<noteq> None"
  by (simp add: element_of_def has_key_def)





















text \<open>
  C4.  The claim has the replay of a style record end with its one \<open>insert\<close>, the
  element carrying the attributes of the record and no debug id.  The style branch has
  no \<open>break\<close>, and the statements of the default branch follow: the record and the
  element get the attribute \<open>data-id\<close>, and \<open>insert\<close> runs a second time.  After the
  replay of \<open>style_stream\<close> the style element of id 3, whose record has the one
  attribute \<open>type\<close>, carries \<open>data-id\<close> as well.  In \<open>style_under_text\<close> the parent of
  the style record is a text node, which takes no children: the console has two
  warnings for the one record, one from each \<open>insert\<close>.
\<close>

theorem style_record_gets_debug_id:
  "map d_attributes (drop 2 style_stream) = [Some [(''type'', ''text/css'')]] \<and>
   attributes_of (markup style_stream empty_frame) 3 =
     Some [(''type'', ''text/css''), (''data-id'', ''3'')] \<and>
   console_of (markup style_under_text empty_frame) =
     Some [InsertWarning 3 2 (record_of 2 (Some 1) ''STYLE'' [] None) HierarchyRequestError,
           InsertWarning 3 2 (record_of 2 (Some 1) ''STYLE'' [(''data-id'', ''2'')] None)
             HierarchyRequestError]"
  by code_simp

end
